theory Spec2Isabelle
  imports Complex_Main "HOL-Library.Sublist"
begin

section \<open>The provider console: configuration form engine and instrument browser\<close>

text \<open>
  A shallow embedding of \<^verbatim>\<open>web/client/src/app/providers/page.tsx\<close>: the
  schema-driven configuration form (\<^verbatim>\<open>valueToString\<close>, \<^verbatim>\<open>buildConfigValues\<close>,
  \<^verbatim>\<open>parseConfigValue\<close>, \<^verbatim>\<open>collectConfigPayload\<close>, \<^verbatim>\<open>handleFormSubmit\<close>) and
  the filtered, paginated instrument list with its selection (the \<^verbatim>\<open>useMemo\<close> and
  \<^verbatim>\<open>useEffect\<close> hooks of \<^verbatim>\<open>ProvidersPage\<close>).
\<close>

subsection \<open>Strings of the host language\<close>

text \<open>
  A string is a sequence of code units; the embedding covers the code units below 256
  (ASCII and Latin-1), one \<^typ>\<open>char\<close> each. In that range the white space and line
  terminators removed by \<^verbatim>\<open>String.prototype.trim\<close> are TAB, LF, VT, FF, CR, SPACE and
  NBSP, and \<^verbatim>\<open>toLowerCase\<close> moves \<^verbatim>\<open>A-Z\<close> and the upper-case letters
  \<^verbatim>\<open>U+00C0-U+00DE\<close> (the multiplication sign \<^verbatim>\<open>U+00D7\<close> apart) up by 32.
\<close>

definition isWhiteSpace :: "char \<Rightarrow> bool" where
  "isWhiteSpace c = (of_char c \<in> {9, 10, 11, 12, 13, 32, 160 :: nat})"

definition trimStart :: "string \<Rightarrow> string" where
  "trimStart s = dropWhile isWhiteSpace s"

definition trimEnd :: "string \<Rightarrow> string" where
  "trimEnd s = rev (dropWhile isWhiteSpace (rev s))"

definition trim :: "string \<Rightarrow> string" where
  "trim s = trimEnd (trimStart s)"

definition toLowerChar :: "char \<Rightarrow> char" where
  "toLowerChar c =
     (let n = of_char c :: nat
      in if (65 \<le> n \<and> n \<le> 90) \<or> (192 \<le> n \<and> n \<le> 222 \<and> n \<noteq> 215)
         then char_of (n + 32) else c)"

definition toLowerCase :: "string \<Rightarrow> string" where
  "toLowerCase s = map toLowerChar s"

text \<open>\<^verbatim>\<open>haystack.includes(needle)\<close>: the needle occurs as a contiguous run.\<close>

fun startsWith :: "string \<Rightarrow> string \<Rightarrow> bool" where
  "startsWith s [] = True"
| "startsWith [] (c # cs) = False"
| "startsWith (d # ds) (c # cs) = (d = c \<and> startsWith ds cs)"

fun String_includes :: "string \<Rightarrow> string \<Rightarrow> bool" where
  "String_includes [] needle = (needle = [])"
| "String_includes (c # cs) needle = (startsWith (c # cs) needle \<or> String_includes cs needle)"

subsection \<open>Numbers read from text\<close>

text \<open>
  A Number is a double. The embedding does not compute with doubles; it records which
  double a parse denotes. \<open>Integral i\<close> is the double equal to the integer \<open>i\<close>, which
  exists for every \<open>i\<close> of magnitude up to \<open>2^53\<close>; \<open>Rounded i\<close> is the double nearest
  to a larger integer \<open>i\<close>; \<open>Decimal s\<close> is the double denoted by the decimal literal
  \<open>s\<close>. None of the three is NaN.
\<close>

datatype jsnumber = Integral int | Rounded int | Decimal string

definition toNumber :: "int \<Rightarrow> jsnumber" where
  "toNumber i = (if \<bar>i\<bar> \<le> 2 ^ 53 then Integral i else Rounded i)"

definition isDigit :: "char \<Rightarrow> bool" where
  "isDigit c = (48 \<le> (of_char c :: nat) \<and> (of_char c :: nat) \<le> 57)"

definition digitValue :: "char \<Rightarrow> int" where
  "digitValue c = int (of_char c) - 48"

definition decimalValue :: "string \<Rightarrow> int" where
  "decimalValue ds = foldl (\<lambda>acc c. 10 * acc + digitValue c) 0 ds"

text \<open>
  \<^verbatim>\<open>Number.parseInt(text, 10)\<close>: skip leading white space, read one optional sign,
  then the longest run of decimal digits; no digit gives NaN (\<open>None\<close>), and whatever
  follows the digits is ignored.
\<close>

definition Number_parseInt10 :: "string \<Rightarrow> jsnumber option" where
  "Number_parseInt10 inputString =
     (let S = trimStart inputString;
          sign = (if S \<noteq> [] \<and> hd S = CHR ''-'' then - 1 else 1 :: int);
          S' = (if S \<noteq> [] \<and> (hd S = CHR ''+'' \<or> hd S = CHR ''-'') then tl S else S);
          Z = takeWhile isDigit S'
      in if Z = [] then None else Some (toNumber (sign * decimalValue Z)))"

text \<open>
  \<^verbatim>\<open>Number.parseFloat(text)\<close>: skip leading white space, then the longest prefix
  that is a decimal literal: an optional sign, then \<^verbatim>\<open>Infinity\<close>, or digits with an
  optional fraction, or a fraction alone, each of the last two with an optional
  exponent that counts only when it has a digit. No such prefix gives NaN.
\<close>

definition exponentPart :: "string \<Rightarrow> string" where
  "exponentPart r =
     (case r of
        [] \<Rightarrow> []
      | e # r1 \<Rightarrow>
          if e = CHR ''e'' \<or> e = CHR ''E'' then
            (let sg = (if r1 \<noteq> [] \<and> (hd r1 = CHR ''+'' \<or> hd r1 = CHR ''-'') then [hd r1] else []);
                 ds = takeWhile isDigit (drop (length sg) r1)
             in if ds = [] then [] else e # sg @ ds)
          else [])"

definition unsignedDecimalLiteral :: "string \<Rightarrow> string option" where
  "unsignedDecimalLiteral s =
     (if startsWith s ''Infinity'' then Some ''Infinity''
      else
        (let d1 = takeWhile isDigit s; r1 = dropWhile isDigit s
         in if r1 \<noteq> [] \<and> hd r1 = CHR ''.'' then
              (let d2 = takeWhile isDigit (tl r1); r2 = dropWhile isDigit (tl r1)
               in if d1 = [] \<and> d2 = [] then None
                  else Some (d1 @ ''.'' @ d2 @ exponentPart r2))
            else if d1 = [] then None
            else Some (d1 @ exponentPart r1)))"

definition Number_parseFloat :: "string \<Rightarrow> jsnumber option" where
  "Number_parseFloat inputString =
     (let S = trimStart inputString;
          sg = (if S \<noteq> [] \<and> (hd S = CHR ''+'' \<or> hd S = CHR ''-'') then [hd S] else [])
      in map_option (\<lambda>lit. Decimal (sg @ lit)) (unsignedDecimalLiteral (drop (length sg) S)))"

subsection \<open>Data\<close>

text \<open>
  The form's state. \<^verbatim>\<open>Record<string, T>\<close> is a finite map from property names to
  values; the names are ordinary keys (a field called like a member of
  \<^verbatim>\<open>Object.prototype\<close> is outside the embedding).
\<close>

datatype FormMode = Create | Edit

record FormState =
  name :: string
  adapter :: string
  configValues :: "string \<rightharpoonup> string"
  enabled :: bool

definition defaultFormState :: FormState where
  "defaultFormState =
     \<lparr>FormState.name = [], adapter = [], configValues = Map.empty, enabled = True\<rparr>"

text \<open>
  Values as they arrive from the control API (\<^verbatim>\<open>unknown\<close> in the source): the
  JSON values, and \<open>Undefined\<close> for a property that is not there. A number is
  carried as its canonical decimal text, the text \<^verbatim>\<open>String(n)\<close> returns, since
  formatting a double is outside the embedding. An object is the list of its own
  properties in enumeration order.
\<close>

datatype jsvalue =
    Undefined
  | Null
  | JBoolean bool
  | JNumber string
  | JString string
  | JArray "jsvalue list"
  | JObject "(string \<times> jsvalue) list"

text \<open>
  Modelled from the spec: the types \<^verbatim>\<open>SettingsSchema\<close>, \<^verbatim>\<open>AdapterMetadata\<close>,
  \<^verbatim>\<open>Instrument\<close> and \<^verbatim>\<open>ProviderDetail\<close> are imported from \<^verbatim>\<open>@/lib/types\<close>,
  which is not among the sources at hand. Their fields here are the spec's
  SettingField (name, type tag, optional default, required flag), AdapterMetadata
  (identifier, display name, ordered settings schema) and Instrument (symbol, base and
  quote asset, each under a primary and a legacy field that may be absent), which are
  also the fields this page reads. An absent default is \<open>Undefined\<close>; of a
  \<^verbatim>\<open>ProviderDetail\<close> the hooks below read the instruments only.
\<close>

record SettingsSchema =
  name :: string
  type :: string
  default :: jsvalue
  required :: bool

record AdapterMetadata =
  "identifier" :: string
  displayName :: string
  settingsSchema :: "SettingsSchema list"

record Instrument =
  symbol :: "string option"
  baseAsset :: "string option"
  base_currency :: "string option"
  quoteAsset :: "string option"
  quote_currency :: "string option"

record ProviderDetail =
  instruments :: "Instrument list"

definition INSTRUMENTS_PAGE_SIZE :: nat where
  "INSTRUMENTS_PAGE_SIZE = 120"

definition instrumentBaseValue :: "Instrument \<Rightarrow> string" where
  "instrumentBaseValue instrument =
     (case baseAsset instrument of
        Some b \<Rightarrow> b
      | None \<Rightarrow> (case base_currency instrument of Some b \<Rightarrow> b | None \<Rightarrow> []))"

definition instrumentQuoteValue :: "Instrument \<Rightarrow> string" where
  "instrumentQuoteValue instrument =
     (case quoteAsset instrument of
        Some q \<Rightarrow> q
      | None \<Rightarrow> (case quote_currency instrument of Some q \<Rightarrow> q | None \<Rightarrow> []))"

subsection \<open>Building the editable values\<close>

text \<open>
  \<^verbatim>\<open>JSON.stringify\<close> on a value received as JSON. \<open>None\<close> is the
  \<^verbatim>\<open>undefined\<close> it returns for \<^verbatim>\<open>undefined\<close>: such an array element is
  written \<^verbatim>\<open>null\<close>, such a property is left out. A number that is not finite is
  written \<^verbatim>\<open>null\<close>.
\<close>

definition hexDigit :: "nat \<Rightarrow> char" where
  "hexDigit n = (if n < 10 then char_of (48 + n) else char_of (87 + n))"

definition quoteJSONChar :: "char \<Rightarrow> string" where
  "quoteJSONChar c =
     (let n = of_char c :: nat
      in if n = 8 then [CHR 0x5C, CHR ''b'']
         else if n = 9 then [CHR 0x5C, CHR ''t'']
         else if n = 10 then [CHR 0x5C, CHR ''n'']
         else if n = 12 then [CHR 0x5C, CHR ''f'']
         else if n = 13 then [CHR 0x5C, CHR ''r'']
         else if n = 34 then [CHR 0x5C, CHR 0x22]
         else if n = 92 then [CHR 0x5C, CHR 0x5C]
         else if n < 32 then [CHR 0x5C, CHR ''u'', CHR ''0'', CHR ''0'', hexDigit (n div 16), hexDigit (n mod 16)]
         else [c])"

definition quoteJSONString :: "string \<Rightarrow> string" where
  "quoteJSONString s = [CHR 0x22] @ concat (map quoteJSONChar s) @ [CHR 0x22]"

fun joinWith :: "string \<Rightarrow> string list \<Rightarrow> string" where
  "joinWith sep [] = []"
| "joinWith sep [x] = x"
| "joinWith sep (x # y # ys) = x @ sep @ joinWith sep (y # ys)"

fun JSON_stringify :: "jsvalue \<Rightarrow> string option"
  and serializeElements :: "jsvalue list \<Rightarrow> string list"
  and serializeProperties :: "(string \<times> jsvalue) list \<Rightarrow> string list" where
  "JSON_stringify Undefined = None"
| "JSON_stringify Null = Some ''null''"
| "JSON_stringify (JBoolean b) = Some (if b then ''true'' else ''false'')"
| "JSON_stringify (JNumber t) =
     Some (if t \<in> set [''NaN'', ''Infinity'', ''-Infinity''] then ''null'' else t)"
| "JSON_stringify (JString s) = Some (quoteJSONString s)"
| "JSON_stringify (JArray xs) = Some (''['' @ joinWith '','' (serializeElements xs) @ '']'')"
| "JSON_stringify (JObject ps) = Some (''{'' @ joinWith '','' (serializeProperties ps) @ ''}'')"
| "serializeElements [] = []"
| "serializeElements (x # xs) =
     (case JSON_stringify x of None \<Rightarrow> ''null'' | Some t \<Rightarrow> t) # serializeElements xs"
| "serializeProperties [] = []"
| "serializeProperties ((k, v) # ps) =
     (case JSON_stringify v of
        None \<Rightarrow> serializeProperties ps
      | Some t \<Rightarrow> (quoteJSONString k @ '':'' @ t) # serializeProperties ps)"





definition handleConfigChange :: "string \<Rightarrow> string \<Rightarrow> FormState \<Rightarrow> FormState" where
  "handleConfigChange key v prev = prev\<lparr>configValues := (configValues prev)(key \<mapsto> v)\<rparr>"

subsection \<open>The value coercer\<close>

text \<open>The typed values \<^verbatim>\<open>parseConfigValue\<close> produces.\<close>

datatype config_value = VNumber jsnumber | VBoolean bool | VString string

text \<open>
  \<^verbatim>\<open>parseConfigValue\<close> returns \<^verbatim>\<open>{ error }\<close> or \<^verbatim>\<open>{ value }\<close>, never both:
  \<open>Inl\<close> is the error message, \<open>Inr\<close> the value.
\<close>

definition parseConfigValue :: "SettingsSchema \<Rightarrow> string \<Rightarrow> string + config_value" where
  "parseConfigValue setting raw =
     (let kind = toLowerCase (type setting);
          trimmed = trim raw
      in if kind = ''int'' \<or> kind = ''integer'' then
           (case Number_parseInt10 trimmed of
              None \<Rightarrow> Inl (name setting @ '' must be an integer'')
            | Some parsed \<Rightarrow> Inr (VNumber parsed))
         else if kind = ''float'' \<or> kind = ''double'' \<or> kind = ''number'' then
           (case Number_parseFloat trimmed of
              None \<Rightarrow> Inl (name setting @ '' must be a number'')
            | Some parsed \<Rightarrow> Inr (VNumber parsed))
         else if kind = ''bool'' \<or> kind = ''boolean'' then
           (let normalized = toLowerCase trimmed
            in if normalized \<in> set [''true'', ''1'', ''yes'', ''on''] then Inr (VBoolean True)
               else if normalized \<in> set [''false'', ''0'', ''no'', ''off''] then Inr (VBoolean False)
               else Inl (name setting @ '' must be a boolean''))
         else Inr (VString raw))"

subsection \<open>Collecting the payload and submitting\<close>

text \<open>
  The \<^verbatim>\<open>for ... of\<close> loop of \<^verbatim>\<open>collectConfigPayload\<close>, with \<open>rawValues\<close> the
  \<^verbatim>\<open>configValues\<close> argument and \<open>config\<close> the object built so far. A \<^verbatim>\<open>return\<close> with an error is \<open>Inl\<close> of the message; the
  source tests the message for truthiness, and no message it builds is empty.
\<close>

fun collectConfigPayload_loop ::
  "SettingsSchema list \<Rightarrow> (string \<rightharpoonup> string) \<Rightarrow> (string \<rightharpoonup> config_value)
     \<Rightarrow> string + (string \<rightharpoonup> config_value)" where
  "collectConfigPayload_loop [] rawValues config = Inr config"
| "collectConfigPayload_loop (setting # rest) rawValues config =
     (let rawValue = (case rawValues (name setting) of None \<Rightarrow> [] | Some v \<Rightarrow> v)
      in if trim rawValue = [] then
           (if required setting then Inl (name setting @ '' is required'')
            else collectConfigPayload_loop rest rawValues config)
         else
           (case parseConfigValue setting rawValue of
              Inl e \<Rightarrow> Inl e
            | Inr v \<Rightarrow> collectConfigPayload_loop rest rawValues (config(name setting \<mapsto> v))))"

definition collectConfigPayload ::
  "AdapterMetadata \<Rightarrow> (string \<rightharpoonup> string) \<Rightarrow> string + (string \<rightharpoonup> config_value)" where
  "collectConfigPayload metadata rawValues =
     collectConfigPayload_loop (settingsSchema metadata) rawValues Map.empty"

text \<open>
  \<^verbatim>\<open>ProviderRequest\<close>: name, \<^verbatim>\<open>adapter.identifier\<close>, \<^verbatim>\<open>adapter.config\<close>, enabled.
  A call of the API client is one of the two the handler can make.
\<close>

datatype provider_request =
  ProviderRequest string string "string \<rightharpoonup> config_value" bool

datatype api_call =
    CreateProvider provider_request
  | UpdateProvider string provider_request

text \<open>
  \<^verbatim>\<open>handleFormSubmit\<close> up to its first \<^verbatim>\<open>await\<close>: the message given to
  \<^verbatim>\<open>setFormError\<close> (\<open>None\<close> for the initial \<^verbatim>\<open>setFormError(null)\<close>) and the
  requests handed to the API client, in order.
\<close>

record submit_result =
  formError :: "string option"
  requests :: "api_call list"

definition selectedAdapter :: "AdapterMetadata list \<Rightarrow> FormState \<Rightarrow> AdapterMetadata option" where
  "selectedAdapter adapters formState =
     find (\<lambda>a. identifier a = adapter formState) adapters"

definition handleFormSubmit :: "FormMode \<Rightarrow> FormState \<Rightarrow> AdapterMetadata list \<Rightarrow> submit_result" where
  "handleFormSubmit formMode formState adapters =
     (let mode = formMode;
          trimmedName = trim (FormState.name formState)
      in if trimmedName = [] then
           \<lparr>formError = Some ''Provider name is required'', requests = []\<rparr>
         else
           (case selectedAdapter adapters formState of
              None \<Rightarrow> \<lparr>formError = Some ''Adapter selection is required'', requests = []\<rparr>
            | Some sa \<Rightarrow>
                (case collectConfigPayload sa (configValues formState) of
                   Inl configError \<Rightarrow> \<lparr>formError = Some configError, requests = []\<rparr>
                 | Inr config \<Rightarrow>
                     (let payload = ProviderRequest trimmedName (identifier sa) config (enabled formState)
                      in \<lparr>formError = None,
                          requests = [if mode = Create then CreateProvider payload
                                      else UpdateProvider trimmedName payload]\<rparr>))))"

subsection \<open>The instrument browser: filter and pager\<close>

text \<open>
  The \<^verbatim>\<open>useMemo\<close> that computes \<^verbatim>\<open>filteredInstruments\<close> from the viewed provider
  (\<open>None\<close> for \<^verbatim>\<open>null\<close>) and the query.
\<close>

definition filteredInstruments :: "ProviderDetail option \<Rightarrow> string \<Rightarrow> Instrument list" where
  "filteredInstruments detail instrumentQuery =
     (case detail of
        None \<Rightarrow> []
      | Some d \<Rightarrow>
          (let query = toLowerCase (trim instrumentQuery)
           in if query = [] then instruments d
              else filter
                     (\<lambda>instrument.
                        let sym = (case symbol instrument of Some s \<Rightarrow> toLowerCase s | None \<Rightarrow> []);
                            base = toLowerCase (instrumentBaseValue instrument);
                            quote = toLowerCase (instrumentQuoteValue instrument)
                        in String_includes sym query \<or> String_includes base query
                           \<or> String_includes quote query)
                     (instruments d)))"

text \<open>
  The page index is a natural number: every value given to \<^verbatim>\<open>setInstrumentPage\<close> is
  one (\<open>0\<close>, \<^verbatim>\<open>Math.max(prev - 1, 0)\<close>, \<^verbatim>\<open>Math.min(prev + 1, totalInstrumentPages - 1)\<close>
  with at least one page, \<^verbatim>\<open>maxPage\<close>). \<^verbatim>\<open>Math.ceil(total / INSTRUMENTS_PAGE_SIZE)\<close>
  divides as doubles do, which is exact enough for the ceiling at every array length.
  \<^verbatim>\<open>xs.slice(start, end)\<close> with \<open>start \<le> end\<close> is \<open>take (end - start) (drop start xs)\<close>.
\<close>

definition Math_ceil_div :: "nat \<Rightarrow> nat \<Rightarrow> nat" where
  "Math_ceil_div n d = nat \<lceil>real n / real d\<rceil>"

definition Array_slice :: "'a list \<Rightarrow> nat \<Rightarrow> nat \<Rightarrow> 'a list" where
  "Array_slice xs start end = take (end - start) (drop start xs)"

definition totalInstrumentCount :: "Instrument list \<Rightarrow> nat" where
  "totalInstrumentCount filtered = length filtered"

definition totalInstrumentPages :: "Instrument list \<Rightarrow> nat" where
  "totalInstrumentPages filtered =
     (if totalInstrumentCount filtered = 0 then 0
      else Math_ceil_div (totalInstrumentCount filtered) INSTRUMENTS_PAGE_SIZE)"

definition effectiveInstrumentPage :: "Instrument list \<Rightarrow> nat \<Rightarrow> nat" where
  "effectiveInstrumentPage filtered instrumentPage =
     (if totalInstrumentPages filtered = 0 then 0
      else min instrumentPage (totalInstrumentPages filtered - 1))"

definition pageStart :: "Instrument list \<Rightarrow> nat \<Rightarrow> nat" where
  "pageStart filtered instrumentPage =
     effectiveInstrumentPage filtered instrumentPage * INSTRUMENTS_PAGE_SIZE"

definition currentPageInstruments :: "Instrument list \<Rightarrow> nat \<Rightarrow> Instrument list" where
  "currentPageInstruments filtered instrumentPage =
     Array_slice filtered (pageStart filtered instrumentPage)
       (pageStart filtered instrumentPage + INSTRUMENTS_PAGE_SIZE)"

definition pageDisplayStart :: "Instrument list \<Rightarrow> nat \<Rightarrow> nat" where
  "pageDisplayStart filtered instrumentPage =
     (if totalInstrumentCount filtered = 0 then 0 else pageStart filtered instrumentPage + 1)"

definition pageDisplayEnd :: "Instrument list \<Rightarrow> nat \<Rightarrow> nat" where
  "pageDisplayEnd filtered instrumentPage =
     (if totalInstrumentCount filtered = 0 then 0
      else pageStart filtered instrumentPage + length (currentPageInstruments filtered instrumentPage))"

subsection \<open>The effects on the view state\<close>

text \<open>
  An effect runs after a render, reads the state that render saw, and queues calls of
  the state setters; the queued values are applied in order before the next render.
  Each effect below is the list of setter calls its body makes.
\<close>

datatype state_update =
    SetInstrumentPage nat
  | SetSelectedInstrument "Instrument option"

record view_state =
  detail :: "ProviderDetail option"
  instrumentQuery :: string
  instrumentPage :: nat
  selectedInstrument :: "Instrument option"

text \<open>The effect keyed on \<^verbatim>\<open>[instrumentQuery]\<close>.\<close>

definition pageResetEffect :: "state_update list" where
  "pageResetEffect = [SetInstrumentPage 0]"

text \<open>
  The effect keyed on \<^verbatim>\<open>[filteredInstruments.length, instrumentPage]\<close>.
  \<^verbatim>\<open>Math.max(0, n - 1)\<close> is the truncating \<open>n - 1\<close> of the naturals.
\<close>

definition pageClampEffect :: "Instrument list \<Rightarrow> nat \<Rightarrow> state_update list" where
  "pageClampEffect filtered page =
     (let total = length filtered
      in if total = 0 then (if page \<noteq> 0 then [SetInstrumentPage 0] else [])
         else
           (let maxPage = max 0 (Math_ceil_div total INSTRUMENTS_PAGE_SIZE - 1)
            in if page > maxPage then [SetInstrumentPage maxPage] else []))"

text \<open>
  The effect keyed on \<^verbatim>\<open>[filteredInstruments, instrumentPage, selectedInstrument]\<close>.
  \<^verbatim>\<open>currentSlice.find\<close> returns the first element with the selection's symbol; the
  source skips the setter when that element is the selected object itself.
\<close>

definition selectionEffect ::
  "Instrument list \<Rightarrow> nat \<Rightarrow> Instrument option \<Rightarrow> state_update list" where
  "selectionEffect filtered page selected =
     (if length filtered = 0 then
        (if selected \<noteq> None then [SetSelectedInstrument None] else [])
      else
        (let maxPage = max 0 (Math_ceil_div (length filtered) INSTRUMENTS_PAGE_SIZE - 1);
             currentPage = min page maxPage;
             start = currentPage * INSTRUMENTS_PAGE_SIZE;
             currentSlice = Array_slice filtered start (start + INSTRUMENTS_PAGE_SIZE)
         in if length currentSlice = 0 then []
            else
              (case selected of
                 None \<Rightarrow> [SetSelectedInstrument (Some (hd currentSlice))]
               | Some sel \<Rightarrow>
                   (case find (\<lambda>instrument. symbol instrument = symbol sel) currentSlice of
                      Some match \<Rightarrow>
                        (if match \<noteq> sel then [SetSelectedInstrument (Some match)] else [])
                    | None \<Rightarrow> [SetSelectedInstrument (Some (hd currentSlice))]))))"

fun applyUpdate :: "view_state \<Rightarrow> state_update \<Rightarrow> view_state" where
  "applyUpdate st (SetInstrumentPage p) = st\<lparr>instrumentPage := p\<rparr>"
| "applyUpdate st (SetSelectedInstrument s) = st\<lparr>selectedInstrument := s\<rparr>"

text \<open>
  The selection synchroniser: the selection after the selection effect has run on a
  render that saw \<open>filtered\<close>, \<open>page\<close> and \<open>selected\<close>.
\<close>

definition resync :: "Instrument list \<Rightarrow> nat \<Rightarrow> Instrument option \<Rightarrow> Instrument option" where
  "resync filtered page selected =
     selectedInstrument
       (foldl applyUpdate
          \<lparr>detail = None, instrumentQuery = [], instrumentPage = page, selectedInstrument = selected\<rparr>
          (selectionEffect filtered page selected))"

text \<open>
  One commit of the browser after \<^verbatim>\<open>setInstrumentQuery(q)\<close>, for a provider that stays
  open: \<open>prev\<close> is the state the previous render saw, with no setter call pending;
  the new render sees \<open>prev\<close> with
  the query \<open>q\<close>, and the effects whose dependencies differ between the two renders
  run in the order the component declares them: the page reset, the page clamp, the
  selection. Their setter calls are applied in that order. (The two effects keyed on
  \<^verbatim>\<open>[detailOpen]\<close> and \<^verbatim>\<open>[detail]\<close> do not run: neither dependency changed.)
  Strings and numbers are compared by value. The list \<^verbatim>\<open>filteredInstruments\<close> is
  compared as an object: the memo recomputes it when the query changes, and the result
  is a new array unless it is \<^verbatim>\<open>detail.instruments\<close> itself both times, which is
  when both queries are blank.
\<close>

definition queryChangeEffects :: "view_state \<Rightarrow> string \<Rightarrow> state_update list" where
  "queryChangeEffects prev q =
     (let previous = filteredInstruments (detail prev) (instrumentQuery prev);
          filtered = filteredInstruments (detail prev) q;
          page = instrumentPage prev
      in (if q \<noteq> instrumentQuery prev then pageResetEffect else [])
         @ (if length filtered \<noteq> length previous then pageClampEffect filtered page else [])
         @ (if q \<noteq> instrumentQuery prev
               \<and> (detail prev = None \<or> toLowerCase (trim q) \<noteq> []
                    \<or> toLowerCase (trim (instrumentQuery prev)) \<noteq> [])
            then selectionEffect filtered page (selectedInstrument prev)
            else []))"

definition setInstrumentQuery :: "view_state \<Rightarrow> string \<Rightarrow> view_state" where
  "setInstrumentQuery prev q =
     foldl applyUpdate (prev\<lparr>instrumentQuery := q\<rparr>) (queryChangeEffects prev q)"

subsection \<open>Notions of the specification\<close>

text \<open>
  A text starts with an integer: an optional sign \<open>sg\<close>, then the digits \<open>ds\<close>, at
  least one and as many as there are, then the rest.
\<close>

definition leadingInteger :: "string \<Rightarrow> string \<Rightarrow> string \<Rightarrow> string \<Rightarrow> bool" where
  "leadingInteger t sg ds rest =
     (t = sg @ ds @ rest \<and> sg \<in> set [[], ''+'', ''-''] \<and> ds \<noteq> [] \<and> list_all isDigit ds
      \<and> (rest = [] \<or> \<not> isDigit (hd rest)))"

text \<open>
  The raw text of a field in the form (the empty text when the form has none), whether
  it is blank, and whether the field passes: blank and optional, or not blank and
  coerced without error.
\<close>

definition rawValueOf :: "(string \<rightharpoonup> string) \<Rightarrow> SettingsSchema \<Rightarrow> string" where
  "rawValueOf rawValues setting = (case rawValues (name setting) of None \<Rightarrow> [] | Some v \<Rightarrow> v)"

definition fieldBlank :: "(string \<rightharpoonup> string) \<Rightarrow> SettingsSchema \<Rightarrow> bool" where
  "fieldBlank rawValues setting = (trim (rawValueOf rawValues setting) = [])"

definition fieldAccepted :: "(string \<rightharpoonup> string) \<Rightarrow> SettingsSchema \<Rightarrow> bool" where
  "fieldAccepted rawValues setting =
     (if fieldBlank rawValues setting then \<not> required setting
      else \<not> isl (parseConfigValue setting (rawValueOf rawValues setting)))"


text \<open>
  An instrument matches a (lower-case) query: the query is a substring of the
  lower-case symbol, base asset or quote asset, an absent symbol counting as empty.
\<close>

definition instrumentMatches :: "string \<Rightarrow> Instrument \<Rightarrow> bool" where
  "instrumentMatches query instrument =
     (sublist query (toLowerCase (case symbol instrument of Some s \<Rightarrow> s | None \<Rightarrow> []))
      \<or> sublist query (toLowerCase (instrumentBaseValue instrument))
      \<or> sublist query (toLowerCase (instrumentQuoteValue instrument)))"

subsection \<open>Sample data\<close>

definition portField :: SettingsSchema where
  "portField = \<lparr>name = ''port'', type = ''int'', default = JNumber ''8080'', required = True\<rparr>"

definition hostField :: SettingsSchema where
  "hostField = \<lparr>name = ''host'', type = ''string'', default = Undefined, required = False\<rparr>"

definition testnetField :: SettingsSchema where
  "testnetField = \<lparr>name = ''testnet'', type = ''Boolean'', default = Null, required = False\<rparr>"

definition sampleAdapter :: AdapterMetadata where
  "sampleAdapter =
     \<lparr>identifier = ''binance'', displayName = ''Binance'',
      settingsSchema = [portField, hostField, testnetField]\<rparr>"

definition otherAdapter :: AdapterMetadata where
  "otherAdapter =
     \<lparr>identifier = ''kraken'', displayName = ''Kraken'',
      settingsSchema = [\<lparr>name = ''apiKey'', type = ''string'', default = Undefined, required = True\<rparr>]\<rparr>"

definition instrumentOf :: "string \<Rightarrow> string option \<Rightarrow> string option \<Rightarrow> Instrument" where
  "instrumentOf s b legacy =
     \<lparr>symbol = Some s, baseAsset = b, base_currency = legacy,
      quoteAsset = None, quote_currency = Some ''USDT''\<rparr>"

definition formBlankPort :: "string \<rightharpoonup> string" where
  "formBlankPort = [''host'' \<mapsto> ''example.org'']"

definition formComplete :: "string \<rightharpoonup> string" where
  "formComplete = [''port'' \<mapsto> '' 8080 '', ''host'' \<mapsto> ''  '', ''testnet'' \<mapsto> ''YES'']"

definition formBadFlag :: "string \<rightharpoonup> string" where
  "formBadFlag = [''port'' \<mapsto> ''8080'', ''testnet'' \<mapsto> ''maybe'']"

definition stateNoName :: FormState where
  "stateNoName =
     \<lparr>FormState.name = ''  '', adapter = ''binance'', configValues = formComplete, enabled = True\<rparr>"

definition stateNoAdapter :: FormState where
  "stateNoAdapter =
     \<lparr>FormState.name = ''spot'', adapter = [], configValues = Map.empty, enabled = True\<rparr>"

definition stateBlankPort :: FormState where
  "stateBlankPort =
     \<lparr>FormState.name = '' spot '', adapter = ''binance'', configValues = formBlankPort, enabled = True\<rparr>"

definition stateComplete :: FormState where
  "stateComplete =
     \<lparr>FormState.name = '' spot '', adapter = ''binance'', configValues = formComplete, enabled = False\<rparr>"


definition sampleDetail :: ProviderDetail where
  "sampleDetail =
     \<lparr>instruments =
        [instrumentOf ''BTCUSDT'' None None,
         instrumentOf ''XBT-PERP'' None (Some ''BTC''),
         instrumentOf ''ETHUSDT'' (Some ''ETH'') (Some ''BTC'')]\<rparr>"

definition manyInstruments :: "Instrument list" where
  "manyInstruments = replicate 250 (instrumentOf ''BTCUSDT'' None None)"

definition bigDetail :: ProviderDetail where
  "bigDetail =
     \<lparr>instruments =
        replicate 121 (instrumentOf ''AB'' None None) @ replicate 120 (instrumentOf ''CD'' None None)\<rparr>"

definition lastPageState :: view_state where
  "lastPageState =
     \<lparr>detail = Some bigDetail, instrumentQuery = [], instrumentPage = 2,
      selectedInstrument = Some (instrumentOf ''CD'' None None)\<rparr>"

section \<open>Properties\<close>

subsection \<open>Trimming and reading integers\<close>

lemma trimEnd_decomp: "s = trimEnd s @ rev (takeWhile isWhiteSpace (rev s))"
  unfolding trimEnd_def by (simp flip: rev_append)

lemma trim_no_leading_space: "trim s \<noteq> [] \<Longrightarrow> \<not> isWhiteSpace (hd (trim s))"
proof -
  assume ne: "trim s \<noteq> []"
  let ?t = "trimStart s"
  have t: "?t = trim s @ rev (takeWhile isWhiteSpace (rev ?t))"
    unfolding trim_def by (rule trimEnd_decomp)
  from ne t have tne: "?t \<noteq> []" by auto
  from ne t have "hd ?t = hd (trim s)" by (metis hd_append2)
  moreover from tne have "\<not> isWhiteSpace (hd ?t)"
    unfolding trimStart_def by (rule hd_dropWhile)
  ultimately show ?thesis by simp
qed

lemma trimStart_trim: "trimStart (trim s) = trim s"
proof (cases "trim s")
  case Nil
  then show ?thesis by (simp add: trimStart_def)
next
  case (Cons c cs)
  with trim_no_leading_space [of s] have "\<not> isWhiteSpace c" by simp
  with Cons show ?thesis by (simp add: trimStart_def)
qed

lemma isDigit_not_sign: "isDigit c \<Longrightarrow> c \<noteq> CHR ''+'' \<and> c \<noteq> CHR ''-''"
  by (auto simp: isDigit_def)

lemma takeWhile_digits: "list_all isDigit ds \<Longrightarrow> rest = [] \<or> \<not> isDigit (hd rest) \<Longrightarrow> takeWhile isDigit (ds @ rest) = ds"
  by (cases rest) (auto simp: list_all_iff)

lemma parseInt10_leading:
  assumes "leadingInteger t sg ds rest" and "trimStart t = t"
  shows "Number_parseInt10 t = Some (toNumber ((if sg = ''-'' then - 1 else 1) * decimalValue ds))"
proof -
  from assms(1) have t: "t = sg @ ds @ rest" and sg: "sg = [] \<or> sg = ''+'' \<or> sg = ''-''"
    and ne: "ds \<noteq> []" and dg: "list_all isDigit ds" and rs: "rest = [] \<or> \<not> isDigit (hd rest)"
    by (auto simp: leadingInteger_def)
  have tw: "takeWhile isDigit (ds @ rest) = ds" using dg rs by (rule takeWhile_digits)
  from ne dg have hdd: "isDigit (hd ds)" by (cases ds) auto
  then have hs: "hd ds \<noteq> CHR ''+''" "hd ds \<noteq> CHR ''-''" using isDigit_not_sign by auto
  from sg show ?thesis
  proof (elim disjE)
    assume "sg = []"
    with t ne hs tw assms(2) show ?thesis
      by (simp add: Number_parseInt10_def Let_def)
  next
    assume "sg = ''+''"
    with t ne tw assms(2) show ?thesis
      by (simp add: Number_parseInt10_def Let_def)
  next
    assume "sg = ''-''"
    with t ne tw assms(2) show ?thesis
      by (simp add: Number_parseInt10_def Let_def)
  qed
qed

lemma parseInt10_None:
  assumes "Number_parseInt10 t \<noteq> None" and "trimStart t = t"
  shows "\<exists>sg ds rest. leadingInteger t sg ds rest"
proof -
  define S' where "S' = (if t \<noteq> [] \<and> (hd t = CHR ''+'' \<or> hd t = CHR ''-'') then tl t else t)"
  define sg where "sg = (if t \<noteq> [] \<and> (hd t = CHR ''+'' \<or> hd t = CHR ''-'') then [hd t] else [])"
  from assms have Z: "takeWhile isDigit S' \<noteq> []"
    by (auto simp: Number_parseInt10_def Let_def S'_def split: if_splits)
  have t: "t = sg @ S'" by (cases t) (auto simp: sg_def S'_def)
  have S': "S' = takeWhile isDigit S' @ dropWhile isDigit S'" by simp
  have "leadingInteger t sg (takeWhile isDigit S') (dropWhile isDigit S')"
    unfolding leadingInteger_def
  proof (intro conjI)
    show "t = sg @ takeWhile isDigit S' @ dropWhile isDigit S'" using t by simp
    show "sg \<in> set [[], ''+'', ''-'']" by (auto simp: sg_def)
    show "takeWhile isDigit S' \<noteq> []" by (rule Z)
    show "list_all isDigit (takeWhile isDigit S')" by (simp add: list_all_iff) (meson set_takeWhileD)
    show "dropWhile isDigit S' = [] \<or> \<not> isDigit (hd (dropWhile isDigit S'))"
      using hd_dropWhile by blast
  qed
  then show ?thesis by blast
qed

lemma parseConfigValue_int:
  "toLowerCase (type f) \<in> {''int'', ''integer''} \<Longrightarrow>
   parseConfigValue f raw =
     (case Number_parseInt10 (trim raw) of
        None \<Rightarrow> Inl (name f @ '' must be an integer'')
      | Some parsed \<Rightarrow> Inr (VNumber parsed))"
  by (auto simp: parseConfigValue_def Let_def)


text \<open>
  Claim C10. For a field whose type tag is, in any letter case, \<^verbatim>\<open>int\<close> or
  \<^verbatim>\<open>integer\<close>, the coercer succeeds on every raw text whose trimmed form starts
  with an optional sign and at least one decimal digit, and returns the Number of the
  longest such leading integer (\<^verbatim>\<open>1.5\<close> gives 1, \<^verbatim>\<open>12abc\<close> gives 12); it
  answers \<^verbatim>\<open><name> must be an integer\<close> only when the trimmed text has no leading
  integer.
\<close>

theorem parseConfigValue_int_leading_prefix:
  assumes "toLowerCase (type f) \<in> {''int'', ''integer''}"
  shows "(\<forall>sg ds rest. leadingInteger (trim raw) sg ds rest \<longrightarrow>
            parseConfigValue f raw =
              Inr (VNumber (toNumber ((if sg = ''-'' then - 1 else 1) * decimalValue ds))))
         \<and> ((\<nexists>sg ds rest. leadingInteger (trim raw) sg ds rest) \<longrightarrow>
            parseConfigValue f raw = Inl (name f @ '' must be an integer''))
         \<and> parseConfigValue f ''1.5'' = Inr (VNumber (Integral 1))
         \<and> parseConfigValue f ''12abc'' = Inr (VNumber (Integral 12))"
proof (intro conjI allI impI)
  fix sg ds rest
  assume "leadingInteger (trim raw) sg ds rest"
  then have "Number_parseInt10 (trim raw) =
      Some (toNumber ((if sg = ''-'' then - 1 else 1) * decimalValue ds))"
    using trimStart_trim by (rule parseInt10_leading)
  then show "parseConfigValue f raw =
      Inr (VNumber (toNumber ((if sg = ''-'' then - 1 else 1) * decimalValue ds)))"
    by (simp only: parseConfigValue_int [OF assms] option.case)
next
  assume no: "\<nexists>sg ds rest. leadingInteger (trim raw) sg ds rest"
  have "Number_parseInt10 (trim raw) = None"
  proof (rule ccontr)
    assume "Number_parseInt10 (trim raw) \<noteq> None"
    then have "\<exists>sg ds rest. leadingInteger (trim raw) sg ds rest"
      using trimStart_trim by (rule parseInt10_None)
    with no show False by contradiction
  qed
  then show "parseConfigValue f raw = Inl (name f @ '' must be an integer'')"
    by (simp only: parseConfigValue_int [OF assms] option.case)
next
  have "Number_parseInt10 (trim ''1.5'') = Some (Integral 1)" by code_simp
  then show "parseConfigValue f ''1.5'' = Inr (VNumber (Integral 1))"
    by (simp only: parseConfigValue_int [OF assms] option.case)
next
  have "Number_parseInt10 (trim ''12abc'') = Some (Integral 12)" by code_simp
  then show "parseConfigValue f ''12abc'' = Inr (VNumber (Integral 12))"
    by (simp only: parseConfigValue_int [OF assms] option.case)
qed

theorem parseConfigValue_int_leading_prefix_witness:
  "toLowerCase (type portField) \<in> {''int'', ''integer''}
   \<and> leadingInteger (trim '' -42.9 '') ''-'' ''42'' ''.9''
   \<and> parseConfigValue portField '' -42.9 '' = Inr (VNumber (Integral (- 42)))
   \<and> (\<nexists>sg ds rest. leadingInteger (trim ''abc'') sg ds rest)
   \<and> parseConfigValue portField ''abc'' = Inl ''port must be an integer''"
proof -
  have k: "toLowerCase (type portField) \<in> {''int'', ''integer''}" by code_simp
  have l: "leadingInteger (trim '' -42.9 '') ''-'' ''42'' ''.9''" by code_simp
  have v: "toNumber ((if ''-'' = ''-'' then - 1 else 1) * decimalValue ''42'') = Integral (- 42)"
    by code_simp
  have n: "\<nexists>sg ds rest. leadingInteger (trim ''abc'') sg ds rest"
  proof
    assume "\<exists>sg ds rest. leadingInteger (trim ''abc'') sg ds rest"
    then obtain sg ds rest where L: "leadingInteger (trim ''abc'') sg ds rest" by blast
    have "Number_parseInt10 (trim ''abc'') =
        Some (toNumber ((if sg = ''-'' then - 1 else 1) * decimalValue ds))"
      using L trimStart_trim by (rule parseInt10_leading)
    moreover have "Number_parseInt10 (trim ''abc'') = None" by code_simp
    ultimately show False by (simp only: option.distinct)
  qed
  have nm: "name portField @ '' must be an integer'' = ''port must be an integer''" by code_simp
  note T = parseConfigValue_int_leading_prefix [OF k]
  have "parseConfigValue portField '' -42.9 '' =
      Inr (VNumber (toNumber ((if ''-'' = ''-'' then - 1 else 1) * decimalValue ''42'')))"
    by (rule T [of "'' -42.9 ''", THEN conjunct1, rule_format, OF l])
  then have a: "parseConfigValue portField '' -42.9 '' = Inr (VNumber (Integral (- 42)))"
    by (simp only: v)
  have "parseConfigValue portField ''abc'' = Inl (name portField @ '' must be an integer'')"
    by (rule T [of "''abc''", THEN conjunct2, THEN conjunct1, rule_format, OF n])
  then have b: "parseConfigValue portField ''abc'' = Inl ''port must be an integer''"
    by (simp only: nm)
  from k l a n b show ?thesis by (intro conjI)
qed

text \<open>
  Claim C1 says that an integer field rejects fractional input with
  \<^verbatim>\<open><name> must be an integer\<close>. On the raw text \<^verbatim>\<open>1.5\<close> the coercer of the
  source returns the value 1 and no error.
\<close>

theorem parseConfigValue_int_accepts_fraction:
  "parseConfigValue \<lparr>name = ''port'', type = ''int'', default = Undefined, required = True\<rparr> ''1.5''
     = Inr (VNumber (Integral 1))"
  by code_simp

subsection \<open>Collecting the payload\<close>

lemma parseConfigValue_error_nonempty: "parseConfigValue setting raw = Inl e \<Longrightarrow> e \<noteq> []"
  by (auto simp: parseConfigValue_def Let_def split: if_splits option.splits)

lemma collect_step_skip:
  "fieldBlank rv g \<Longrightarrow> \<not> required g \<Longrightarrow>
   collectConfigPayload_loop (g # rest) rv cfg = collectConfigPayload_loop rest rv cfg"
  by (simp add: fieldBlank_def rawValueOf_def)

lemma collect_step_required:
  "fieldBlank rv g \<Longrightarrow> required g \<Longrightarrow>
   collectConfigPayload_loop (g # rest) rv cfg = Inl (name g @ '' is required'')"
  by (simp add: fieldBlank_def rawValueOf_def)

lemma collect_step_error:
  "\<not> fieldBlank rv g \<Longrightarrow> parseConfigValue g (rawValueOf rv g) = Inl e \<Longrightarrow>
   collectConfigPayload_loop (g # rest) rv cfg = Inl e"
  by (simp add: fieldBlank_def rawValueOf_def)

lemma collect_step_store:
  "\<not> fieldBlank rv g \<Longrightarrow> parseConfigValue g (rawValueOf rv g) = Inr v \<Longrightarrow>
   collectConfigPayload_loop (g # rest) rv cfg =
     collectConfigPayload_loop rest rv (cfg(name g \<mapsto> v))"
  by (simp add: fieldBlank_def rawValueOf_def)

lemma fieldAccepted_cases:
  assumes "fieldAccepted rv g"
  obtains (skip) "fieldBlank rv g" "\<not> required g"
        | (store) v where "\<not> fieldBlank rv g" "parseConfigValue g (rawValueOf rv g) = Inr v"
proof (cases "fieldBlank rv g")
  case True
  with assms have "\<not> required g" by (simp add: fieldAccepted_def)
  with True show ?thesis by (rule skip)
next
  case False
  with assms have "\<not> isl (parseConfigValue g (rawValueOf rv g))" by (simp add: fieldAccepted_def)
  then obtain v where "parseConfigValue g (rawValueOf rv g) = Inr v"
    by (cases "parseConfigValue g (rawValueOf rv g)") auto
  with False show ?thesis by (rule store)
qed

lemma collect_loop_prefix:
  assumes "\<forall>g\<in>set pre. fieldAccepted rv g"
  shows "\<exists>cfg'. collectConfigPayload_loop (pre @ rest) rv cfg = collectConfigPayload_loop rest rv cfg'"
  using assms
proof (induction pre arbitrary: cfg)
  case Nil
  then show ?case by auto
next
  case (Cons g pre)
  from Cons.prems have g: "fieldAccepted rv g" and pre: "\<forall>g\<in>set pre. fieldAccepted rv g" by auto
  from g show ?case
  proof (cases rule: fieldAccepted_cases)
    case skip
    from Cons.IH [OF pre, of cfg] show ?thesis
      by (simp only: append_Cons collect_step_skip [OF skip])
  next
    case (store v)
    from Cons.IH [OF pre, of "cfg(name g \<mapsto> v)"] show ?thesis
      by (simp only: append_Cons collect_step_store [OF store])
  qed
qed

lemma collect_loop_success:
  assumes "\<forall>g\<in>set schema. fieldAccepted rv g"
  shows "\<exists>config. collectConfigPayload_loop schema rv cfg = Inr config
           \<and> dom config = dom cfg \<union> name ` {g \<in> set schema. \<not> fieldBlank rv g}
           \<and> (\<forall>k v. config k = Some v \<longrightarrow>
                 cfg k = Some v
                 \<or> (\<exists>g\<in>set schema. name g = k \<and> \<not> fieldBlank rv g
                       \<and> parseConfigValue g (rawValueOf rv g) = Inr v))"
  using assms
proof (induction schema arbitrary: cfg)
  case Nil
  then show ?case by simp
next
  case (Cons g schema)
  from Cons.prems have g: "fieldAccepted rv g" and rest: "\<forall>g\<in>set schema. fieldAccepted rv g"
    by auto
  from g show ?case
  proof (cases rule: fieldAccepted_cases)
    case skip
    from Cons.IH [OF rest, of cfg] obtain config where
      c: "collectConfigPayload_loop schema rv cfg = Inr config"
      and d: "dom config = dom cfg \<union> name ` {g \<in> set schema. \<not> fieldBlank rv g}"
      and v: "\<forall>k v. config k = Some v \<longrightarrow> cfg k = Some v
                \<or> (\<exists>g\<in>set schema. name g = k \<and> \<not> fieldBlank rv g
                      \<and> parseConfigValue g (rawValueOf rv g) = Inr v)"
      by blast
    from c have "collectConfigPayload_loop (g # schema) rv cfg = Inr config"
      by (simp only: collect_step_skip [OF skip])
    moreover from d skip
    have "dom config = dom cfg \<union> name ` {h \<in> set (g # schema). \<not> fieldBlank rv h}"
      by auto
    moreover from v
    have "\<forall>k v. config k = Some v \<longrightarrow> cfg k = Some v
            \<or> (\<exists>h\<in>set (g # schema). name h = k \<and> \<not> fieldBlank rv h
                  \<and> parseConfigValue h (rawValueOf rv h) = Inr v)"
      by (meson list.set_intros(2))
    ultimately show ?thesis by blast
  next
    case (store w)
    from Cons.IH [OF rest, of "cfg(name g \<mapsto> w)"] obtain config where
      c: "collectConfigPayload_loop schema rv (cfg(name g \<mapsto> w)) = Inr config"
      and d: "dom config = dom (cfg(name g \<mapsto> w)) \<union> name ` {g \<in> set schema. \<not> fieldBlank rv g}"
      and v: "\<forall>k v. config k = Some v \<longrightarrow> (cfg(name g \<mapsto> w)) k = Some v
                \<or> (\<exists>g\<in>set schema. name g = k \<and> \<not> fieldBlank rv g
                      \<and> parseConfigValue g (rawValueOf rv g) = Inr v)"
      by blast
    from c have "collectConfigPayload_loop (g # schema) rv cfg = Inr config"
      by (simp only: collect_step_store [OF store])
    moreover from d store
    have "dom config = dom cfg \<union> name ` {h \<in> set (g # schema). \<not> fieldBlank rv h}"
      by auto
    moreover have "\<forall>k v. config k = Some v \<longrightarrow> cfg k = Some v
            \<or> (\<exists>h\<in>set (g # schema). name h = k \<and> \<not> fieldBlank rv h
                  \<and> parseConfigValue h (rawValueOf rv h) = Inr v)"
    proof (intro allI impI)
      fix k v'
      assume "config k = Some v'"
      with v have "(cfg(name g \<mapsto> w)) k = Some v'
          \<or> (\<exists>g\<in>set schema. name g = k \<and> \<not> fieldBlank rv g
                \<and> parseConfigValue g (rawValueOf rv g) = Inr v')"
        by blast
      then show "cfg k = Some v'
          \<or> (\<exists>h\<in>set (g # schema). name h = k \<and> \<not> fieldBlank rv h
                \<and> parseConfigValue h (rawValueOf rv h) = Inr v')"
      proof
        assume u: "(cfg(name g \<mapsto> w)) k = Some v'"
        show ?thesis
        proof (cases "k = name g")
          case True
          with u have "v' = w" by simp
          with True store show ?thesis by auto
        next
          case False
          with u show ?thesis by simp
        qed
      next
        assume "\<exists>g\<in>set schema. name g = k \<and> \<not> fieldBlank rv g
                \<and> parseConfigValue g (rawValueOf rv g) = Inr v'"
        then show ?thesis by auto
      qed
    qed
    ultimately show ?thesis by blast
  qed
qed

text \<open>
  Claim C2. \<^verbatim>\<open>collectConfigPayload\<close> goes through the fields in schema order. At
  the first field that does not pass it stops with that field's error, whatever the
  later fields hold: \<^verbatim>\<open><name> is required\<close> for a required field that is blank
  after trimming, the coercer's own message for a field that is not blank. A blank
  optional field is left out. When every field passes the payload has exactly the
  names of the fields that are not blank, each with a value the coercer returned for
  a field of that name, and so no key outside the schema.
\<close>

theorem collectConfigPayload_first_error_or_payload:
  "(\<forall>pre f post.
      settingsSchema md = pre @ f # post \<and> (\<forall>g\<in>set pre. fieldAccepted rv g)
        \<and> fieldBlank rv f \<and> required f
      \<longrightarrow> collectConfigPayload md rv = Inl (name f @ '' is required''))
   \<and> (\<forall>pre f post e.
        settingsSchema md = pre @ f # post \<and> (\<forall>g\<in>set pre. fieldAccepted rv g)
          \<and> \<not> fieldBlank rv f \<and> parseConfigValue f (rawValueOf rv f) = Inl e
        \<longrightarrow> collectConfigPayload md rv = Inl e)
   \<and> ((\<forall>g\<in>set (settingsSchema md). fieldAccepted rv g)
        \<longrightarrow> (\<exists>config.
               collectConfigPayload md rv = Inr config
               \<and> dom config = name ` {g \<in> set (settingsSchema md). \<not> fieldBlank rv g}
               \<and> dom config \<subseteq> name ` set (settingsSchema md)
               \<and> (\<forall>g\<in>set (settingsSchema md). fieldBlank rv g \<and> inj_on name (set (settingsSchema md))
                     \<longrightarrow> config (name g) = None)
               \<and> (\<forall>k v. config k = Some v \<longrightarrow>
                     (\<exists>g\<in>set (settingsSchema md). name g = k \<and> \<not> fieldBlank rv g
                        \<and> parseConfigValue g (rawValueOf rv g) = Inr v))))"
proof (intro conjI allI impI)
  fix pre f post
  assume a: "settingsSchema md = pre @ f # post \<and> (\<forall>g\<in>set pre. fieldAccepted rv g)
        \<and> fieldBlank rv f \<and> required f"
  then obtain cfg' where
    "collectConfigPayload_loop (pre @ f # post) rv Map.empty = collectConfigPayload_loop (f # post) rv cfg'"
    using collect_loop_prefix by blast
  moreover from a have "collectConfigPayload_loop (f # post) rv cfg' = Inl (name f @ '' is required'')"
    by (simp add: collect_step_required del: collectConfigPayload_loop.simps)
  ultimately show "collectConfigPayload md rv = Inl (name f @ '' is required'')"
    using a by (simp only: collectConfigPayload_def)
next
  fix pre f post e
  assume a: "settingsSchema md = pre @ f # post \<and> (\<forall>g\<in>set pre. fieldAccepted rv g)
          \<and> \<not> fieldBlank rv f \<and> parseConfigValue f (rawValueOf rv f) = Inl e"
  then obtain cfg' where
    "collectConfigPayload_loop (pre @ f # post) rv Map.empty = collectConfigPayload_loop (f # post) rv cfg'"
    using collect_loop_prefix by blast
  moreover from a have "collectConfigPayload_loop (f # post) rv cfg' = Inl e"
    by (simp add: collect_step_error del: collectConfigPayload_loop.simps)
  ultimately show "collectConfigPayload md rv = Inl e"
    using a by (simp only: collectConfigPayload_def)
next
  assume a: "\<forall>g\<in>set (settingsSchema md). fieldAccepted rv g"
  from collect_loop_success [OF a, of Map.empty] obtain config where
    c: "collectConfigPayload md rv = Inr config"
    and d: "dom config = name ` {g \<in> set (settingsSchema md). \<not> fieldBlank rv g}"
    and v: "\<forall>k v. config k = Some v \<longrightarrow>
              (\<exists>g\<in>set (settingsSchema md). name g = k \<and> \<not> fieldBlank rv g
                 \<and> parseConfigValue g (rawValueOf rv g) = Inr v)"
    unfolding collectConfigPayload_def by auto
  from d have s: "dom config \<subseteq> name ` set (settingsSchema md)" by auto
  have b: "\<forall>g\<in>set (settingsSchema md). fieldBlank rv g \<and> inj_on name (set (settingsSchema md))
             \<longrightarrow> config (name g) = None"
  proof (intro ballI impI)
    fix g
    assume g: "g \<in> set (settingsSchema md)"
      and "fieldBlank rv g \<and> inj_on name (set (settingsSchema md))"
    then have bl: "fieldBlank rv g" and inj: "inj_on name (set (settingsSchema md))" by auto
    have "name g \<notin> dom config"
    proof
      assume "name g \<in> dom config"
      with d obtain h where "h \<in> set (settingsSchema md)" "\<not> fieldBlank rv h" "name h = name g"
        by auto
      with inj g have "h = g" by (auto dest: inj_onD)
      with \<open>\<not> fieldBlank rv h\<close> bl show False by simp
    qed
    then show "config (name g) = None" by auto
  qed
  from c d s b v show "\<exists>config.
       collectConfigPayload md rv = Inr config
       \<and> dom config = name ` {g \<in> set (settingsSchema md). \<not> fieldBlank rv g}
       \<and> dom config \<subseteq> name ` set (settingsSchema md)
       \<and> (\<forall>g\<in>set (settingsSchema md). fieldBlank rv g \<and> inj_on name (set (settingsSchema md))
             \<longrightarrow> config (name g) = None)
       \<and> (\<forall>k v. config k = Some v \<longrightarrow>
             (\<exists>g\<in>set (settingsSchema md). name g = k \<and> \<not> fieldBlank rv g
                \<and> parseConfigValue g (rawValueOf rv g) = Inr v))"
    by blast
qed

theorem collectConfigPayload_first_error_or_payload_witness:
  "fieldBlank formBlankPort portField \<and> required portField
   \<and> collectConfigPayload sampleAdapter formBlankPort = Inl ''port is required''
   \<and> fieldAccepted formBadFlag portField \<and> fieldAccepted formBadFlag hostField
   \<and> \<not> fieldBlank formBadFlag testnetField
   \<and> parseConfigValue testnetField (rawValueOf formBadFlag testnetField)
       = Inl ''testnet must be a boolean''
   \<and> collectConfigPayload sampleAdapter formBadFlag = Inl ''testnet must be a boolean''
   \<and> fieldAccepted formComplete portField \<and> fieldAccepted formComplete hostField
   \<and> fieldAccepted formComplete testnetField
   \<and> (\<exists>config. collectConfigPayload sampleAdapter formComplete = Inr config
         \<and> dom config = {''port'', ''testnet''}
         \<and> config ''host'' = None)"
proof -
  note T = collectConfigPayload_first_error_or_payload
  have h1: "settingsSchema sampleAdapter = [] @ portField # [hostField, testnetField]
      \<and> (\<forall>g\<in>set []. fieldAccepted formBlankPort g)
      \<and> fieldBlank formBlankPort portField \<and> required portField"
    by code_simp
  have n1: "name portField @ '' is required'' = ''port is required''" by code_simp
  have "collectConfigPayload sampleAdapter formBlankPort = Inl (name portField @ '' is required'')"
    by (rule T [of sampleAdapter formBlankPort, THEN conjunct1, rule_format, OF h1])
  then have c1: "collectConfigPayload sampleAdapter formBlankPort = Inl ''port is required''"
    by (simp only: n1)
  have h2: "settingsSchema sampleAdapter = [portField, hostField] @ testnetField # []
      \<and> (\<forall>g\<in>set [portField, hostField]. fieldAccepted formBadFlag g)
      \<and> \<not> fieldBlank formBadFlag testnetField
      \<and> parseConfigValue testnetField (rawValueOf formBadFlag testnetField)
          = Inl ''testnet must be a boolean''"
    by code_simp
  have c2: "collectConfigPayload sampleAdapter formBadFlag = Inl ''testnet must be a boolean''"
    by (rule T [of sampleAdapter formBadFlag, THEN conjunct2, THEN conjunct1, rule_format, OF h2])
  have h3: "\<forall>g\<in>set (settingsSchema sampleAdapter). fieldAccepted formComplete g"
    by code_simp
  have d3: "name ` {g \<in> set (settingsSchema sampleAdapter). \<not> fieldBlank formComplete g}
      = {''port'', ''testnet''}"
    by code_simp
  have b3: "hostField \<in> set (settingsSchema sampleAdapter)
      \<and> fieldBlank formComplete hostField \<and> inj_on name (set (settingsSchema sampleAdapter))"
    by (simp add: sampleAdapter_def portField_def hostField_def testnetField_def fieldBlank_def
        rawValueOf_def formComplete_def trim_def trimStart_def trimEnd_def isWhiteSpace_def)
  from T [of sampleAdapter formComplete, THEN conjunct2, THEN conjunct2, THEN mp, OF h3]
  obtain config where c: "collectConfigPayload sampleAdapter formComplete = Inr config"
    and d: "dom config = name ` {g \<in> set (settingsSchema sampleAdapter). \<not> fieldBlank formComplete g}"
    and b: "\<forall>g\<in>set (settingsSchema sampleAdapter).
              fieldBlank formComplete g \<and> inj_on name (set (settingsSchema sampleAdapter))
              \<longrightarrow> config (name g) = None"
    by blast
  from b b3 have "config (name hostField) = None" by blast
  moreover have "name hostField = ''host''" by (simp add: hostField_def)
  ultimately have "config ''host'' = None" by simp
  with c d d3 have c3: "\<exists>config. collectConfigPayload sampleAdapter formComplete = Inr config
         \<and> dom config = {''port'', ''testnet''} \<and> config ''host'' = None"
    by auto
  have e: "settingsSchema sampleAdapter = [portField, hostField, testnetField]"
    by (simp add: sampleAdapter_def)
  from h1 have b1: "fieldBlank formBlankPort portField \<and> required portField" by blast
  from h2 have "\<forall>g\<in>set [portField, hostField]. fieldAccepted formBadFlag g" by blast
  then have a2: "fieldAccepted formBadFlag portField \<and> fieldAccepted formBadFlag hostField"
    by (simp only: list.set ball_simps)
  from h2 have n2: "\<not> fieldBlank formBadFlag testnetField
      \<and> parseConfigValue testnetField (rawValueOf formBadFlag testnetField)
          = Inl ''testnet must be a boolean''"
    by blast
  from h3 have "\<forall>g\<in>set [portField, hostField, testnetField]. fieldAccepted formComplete g"
    by (simp only: e)
  then have a3: "fieldAccepted formComplete portField \<and> fieldAccepted formComplete hostField
      \<and> fieldAccepted formComplete testnetField"
    by (simp only: list.set ball_simps)
  from b1 c1 a2 n2 c2 a3 c3 show ?thesis by blast
qed

subsection \<open>Submitting the form\<close>

lemma collectConfigPayload_loop_error_nonempty:
  "collectConfigPayload_loop schema rv cfg = Inl e \<Longrightarrow> e \<noteq> []"
proof (induction schema arbitrary: cfg)
  case Nil
  then show ?case by simp
next
  case (Cons g schema)
  then show ?case
    by (auto simp: Let_def split: if_splits sum.splits dest: parseConfigValue_error_nonempty)
qed

lemma collectConfigPayload_error_nonempty: "collectConfigPayload md rv = Inl e \<Longrightarrow> e \<noteq> []"
  unfolding collectConfigPayload_def by (rule collectConfigPayload_loop_error_nonempty)

text \<open>
  Claim C7. On submission the checks come in this order: a provider name that is
  empty after trimming gives \<^verbatim>\<open>Provider name is required\<close>; otherwise no selected
  adapter gives \<^verbatim>\<open>Adapter selection is required\<close>; otherwise the payload is
  collected and its error, if any, is the form error. In each of these cases no request
  goes to the API client; a request is made only when all three pass, and then there
  is exactly one, carrying the trimmed name, the adapter's identifier and the collected
  payload.
\<close>

theorem handleFormSubmit_checks_in_order:
  "(trim (FormState.name fs) = [] \<longrightarrow>
      handleFormSubmit m fs adapters
        = \<lparr>formError = Some ''Provider name is required'', requests = []\<rparr>)
   \<and> (trim (FormState.name fs) \<noteq> [] \<and> selectedAdapter adapters fs = None \<longrightarrow>
      handleFormSubmit m fs adapters
        = \<lparr>formError = Some ''Adapter selection is required'', requests = []\<rparr>)
   \<and> (\<forall>sa e. trim (FormState.name fs) \<noteq> [] \<and> selectedAdapter adapters fs = Some sa
          \<and> collectConfigPayload sa (configValues fs) = Inl e \<longrightarrow>
      handleFormSubmit m fs adapters = \<lparr>formError = Some e, requests = []\<rparr>)
   \<and> (\<forall>sa config. trim (FormState.name fs) \<noteq> [] \<and> selectedAdapter adapters fs = Some sa
          \<and> collectConfigPayload sa (configValues fs) = Inr config \<longrightarrow>
      handleFormSubmit m fs adapters
        = \<lparr>formError = None,
           requests =
             [if m = Create
              then CreateProvider
                     (ProviderRequest (trim (FormState.name fs)) (identifier sa) config (enabled fs))
              else UpdateProvider (trim (FormState.name fs))
                     (ProviderRequest (trim (FormState.name fs)) (identifier sa) config (enabled fs))]\<rparr>)
   \<and> (formError (handleFormSubmit m fs adapters) \<noteq> None \<longrightarrow>
        requests (handleFormSubmit m fs adapters) = [])
   \<and> (requests (handleFormSubmit m fs adapters) \<noteq> [] \<longrightarrow>
        trim (FormState.name fs) \<noteq> []
        \<and> (\<exists>sa config. selectedAdapter adapters fs = Some sa
              \<and> collectConfigPayload sa (configValues fs) = Inr config))"
  by (auto simp: handleFormSubmit_def Let_def split: option.splits sum.splits)

theorem handleFormSubmit_checks_in_order_witness:
  "trim (FormState.name stateNoName) = []
   \<and> handleFormSubmit Create stateNoName [sampleAdapter, otherAdapter]
       = \<lparr>formError = Some ''Provider name is required'', requests = []\<rparr>
   \<and> (trim (FormState.name stateNoAdapter) \<noteq> []
        \<and> selectedAdapter [sampleAdapter, otherAdapter] stateNoAdapter = None)
   \<and> handleFormSubmit Create stateNoAdapter [sampleAdapter, otherAdapter]
       = \<lparr>formError = Some ''Adapter selection is required'', requests = []\<rparr>
   \<and> (trim (FormState.name stateBlankPort) \<noteq> []
        \<and> selectedAdapter [sampleAdapter, otherAdapter] stateBlankPort = Some sampleAdapter
        \<and> collectConfigPayload sampleAdapter (configValues stateBlankPort) = Inl ''port is required'')
   \<and> handleFormSubmit Edit stateBlankPort [sampleAdapter, otherAdapter]
       = \<lparr>formError = Some ''port is required'', requests = []\<rparr>
   \<and> length (requests (handleFormSubmit Edit stateComplete [sampleAdapter, otherAdapter])) = 1
   \<and> formError (handleFormSubmit Edit stateComplete [sampleAdapter, otherAdapter]) = None"
proof -
  note T = handleFormSubmit_checks_in_order
  have h1: "trim (FormState.name stateNoName) = []" by code_simp
  have c1: "handleFormSubmit Create stateNoName [sampleAdapter, otherAdapter]
       = \<lparr>formError = Some ''Provider name is required'', requests = []\<rparr>"
    by (rule T [THEN conjunct1, THEN mp, OF h1])
  have h2: "trim (FormState.name stateNoAdapter) \<noteq> []
        \<and> selectedAdapter [sampleAdapter, otherAdapter] stateNoAdapter = None"
    by code_simp
  have c2: "handleFormSubmit Create stateNoAdapter [sampleAdapter, otherAdapter]
       = \<lparr>formError = Some ''Adapter selection is required'', requests = []\<rparr>"
    by (rule T [THEN conjunct2, THEN conjunct1, THEN mp, OF h2])
  have b: "fieldBlank formBlankPort portField" and r: "required portField" by code_simp+
  have "collectConfigPayload sampleAdapter formBlankPort
      = collectConfigPayload_loop (portField # [hostField, testnetField]) formBlankPort Map.empty"
    by (simp only: collectConfigPayload_def sampleAdapter_def AdapterMetadata.simps)
  also have "\<dots> = Inl (name portField @ '' is required'')"
    using b r by (rule collect_step_required)
  also have "name portField @ '' is required'' = ''port is required''" by code_simp
  finally have p: "collectConfigPayload sampleAdapter formBlankPort = Inl ''port is required''" .
  have "trim (FormState.name stateBlankPort) \<noteq> []
        \<and> selectedAdapter [sampleAdapter, otherAdapter] stateBlankPort = Some sampleAdapter
        \<and> configValues stateBlankPort = formBlankPort"
    by (simp add: stateBlankPort_def selectedAdapter_def sampleAdapter_def otherAdapter_def
        trim_def trimStart_def trimEnd_def isWhiteSpace_def)
  with p have h3: "trim (FormState.name stateBlankPort) \<noteq> []
        \<and> selectedAdapter [sampleAdapter, otherAdapter] stateBlankPort = Some sampleAdapter
        \<and> collectConfigPayload sampleAdapter (configValues stateBlankPort) = Inl ''port is required''"
    by simp
  have c3: "handleFormSubmit Edit stateBlankPort [sampleAdapter, otherAdapter]
       = \<lparr>formError = Some ''port is required'', requests = []\<rparr>"
    by (rule T [THEN conjunct2, THEN conjunct2, THEN conjunct1, rule_format, OF h3])
  have c4: "length (requests (handleFormSubmit Edit stateComplete [sampleAdapter, otherAdapter])) = 1
      \<and> formError (handleFormSubmit Edit stateComplete [sampleAdapter, otherAdapter]) = None"
    by code_simp
  from h1 c1 h2 c2 h3 c3 c4 show ?thesis by blast
qed

subsection \<open>Building the editable values\<close>







subsection \<open>The instrument filter\<close>

lemma startsWith_prefix: "startsWith s n \<longleftrightarrow> prefix n s"
  by (induction s n rule: startsWith.induct) auto

lemma String_includes_sublist: "String_includes h n \<longleftrightarrow> sublist n h"
  by (induction h) (simp_all add: startsWith_prefix sublist_Cons_right)

lemma toLowerCase_Nil_iff: "toLowerCase s = [] \<longleftrightarrow> s = []"
  by (simp add: toLowerCase_def)

text \<open>
  Claim C6. When the query is empty after trimming, the filter returns the provider's
  instruments as they are. Otherwise it keeps, in their order, exactly the
  instruments for which the trimmed, lower-case query is a substring of the lower-case
  symbol, base asset or quote asset, where the base (quote) asset is the primary field
  when present, else the legacy field when present, else the empty text.
\<close>

theorem filteredInstruments_matches:
  "(trim q = [] \<longrightarrow> filteredInstruments (Some d) q = instruments d)
   \<and> (trim q \<noteq> [] \<longrightarrow>
        filteredInstruments (Some d) q
          = filter (instrumentMatches (toLowerCase (trim q))) (instruments d))
   \<and> subseq (filteredInstruments (Some d) q) (instruments d)
   \<and> (\<forall>i b. baseAsset i = Some b \<longrightarrow> instrumentBaseValue i = b)
   \<and> (\<forall>i b. baseAsset i = None \<and> base_currency i = Some b \<longrightarrow> instrumentBaseValue i = b)
   \<and> (\<forall>i. baseAsset i = None \<and> base_currency i = None \<longrightarrow> instrumentBaseValue i = [])
   \<and> (\<forall>i b. quoteAsset i = Some b \<longrightarrow> instrumentQuoteValue i = b)
   \<and> (\<forall>i b. quoteAsset i = None \<and> quote_currency i = Some b \<longrightarrow> instrumentQuoteValue i = b)
   \<and> (\<forall>i. quoteAsset i = None \<and> quote_currency i = None \<longrightarrow> instrumentQuoteValue i = [])"
proof -
  have sym: "\<And>i. (case symbol i of Some s \<Rightarrow> toLowerCase s | None \<Rightarrow> [])
      = toLowerCase (case symbol i of Some s \<Rightarrow> s | None \<Rightarrow> [])"
    by (simp add: toLowerCase_def split: option.splits)
  have e: "trim q = [] \<longrightarrow> filteredInstruments (Some d) q = instruments d"
    by (simp add: filteredInstruments_def toLowerCase_Nil_iff)
  have m: "trim q \<noteq> [] \<longrightarrow>
        filteredInstruments (Some d) q
          = filter (instrumentMatches (toLowerCase (trim q))) (instruments d)"
    by (simp add: filteredInstruments_def toLowerCase_Nil_iff Let_def
        instrumentMatches_def [abs_def] String_includes_sublist sym)
  have o: "subseq (filteredInstruments (Some d) q) (instruments d)"
  proof (cases "trim q = []")
    case True
    with e show ?thesis by simp
  next
    case False
    with m show ?thesis by simp
  qed
  have b: "(\<forall>i b. baseAsset i = Some b \<longrightarrow> instrumentBaseValue i = b)
      \<and> (\<forall>i b. baseAsset i = None \<and> base_currency i = Some b \<longrightarrow> instrumentBaseValue i = b)
      \<and> (\<forall>i. baseAsset i = None \<and> base_currency i = None \<longrightarrow> instrumentBaseValue i = [])"
    by (simp add: instrumentBaseValue_def)
  have c: "(\<forall>i b. quoteAsset i = Some b \<longrightarrow> instrumentQuoteValue i = b)
      \<and> (\<forall>i b. quoteAsset i = None \<and> quote_currency i = Some b \<longrightarrow> instrumentQuoteValue i = b)
      \<and> (\<forall>i. quoteAsset i = None \<and> quote_currency i = None \<longrightarrow> instrumentQuoteValue i = [])"
    by (simp add: instrumentQuoteValue_def)
  from e m o b c show ?thesis by blast
qed

theorem filteredInstruments_matches_witness:
  "trim ''  '' = []
   \<and> filteredInstruments (Some sampleDetail) ''  '' = instruments sampleDetail
   \<and> trim '' Btc '' \<noteq> []
   \<and> filteredInstruments (Some sampleDetail) '' Btc ''
       = [instrumentOf ''BTCUSDT'' None None, instrumentOf ''XBT-PERP'' None (Some ''BTC'')]
   \<and> (baseAsset (instrumentOf ''XBT-PERP'' None (Some ''BTC'')) = None
        \<and> base_currency (instrumentOf ''XBT-PERP'' None (Some ''BTC'')) = Some ''BTC'')
   \<and> instrumentBaseValue (instrumentOf ''XBT-PERP'' None (Some ''BTC'')) = ''BTC''
   \<and> baseAsset (instrumentOf ''ETHUSDT'' (Some ''ETH'') (Some ''BTC'')) = Some ''ETH''
   \<and> instrumentBaseValue (instrumentOf ''ETHUSDT'' (Some ''ETH'') (Some ''BTC'')) = ''ETH''"
proof -
  note T = filteredInstruments_matches
  have h1: "trim ''  '' = []" by code_simp
  have c1: "filteredInstruments (Some sampleDetail) ''  '' = instruments sampleDetail"
    by (rule T [THEN conjunct1, THEN mp, OF h1])
  have h2: "trim '' Btc '' \<noteq> []" by code_simp
  have f: "filter (instrumentMatches (toLowerCase (trim '' Btc ''))) (instruments sampleDetail)
      = [instrumentOf ''BTCUSDT'' None None, instrumentOf ''XBT-PERP'' None (Some ''BTC'')]"
    by code_simp
  have c2: "filteredInstruments (Some sampleDetail) '' Btc ''
       = [instrumentOf ''BTCUSDT'' None None, instrumentOf ''XBT-PERP'' None (Some ''BTC'')]"
    using T [of "'' Btc ''" sampleDetail, THEN conjunct2, THEN conjunct1, THEN mp, OF h2] f
    by (simp only:)
  have h3: "baseAsset (instrumentOf ''XBT-PERP'' None (Some ''BTC'')) = None
        \<and> base_currency (instrumentOf ''XBT-PERP'' None (Some ''BTC'')) = Some ''BTC''"
    by (simp add: instrumentOf_def)
  have c3: "instrumentBaseValue (instrumentOf ''XBT-PERP'' None (Some ''BTC'')) = ''BTC''"
    by (rule T [THEN conjunct2, THEN conjunct2, THEN conjunct2, THEN conjunct2,
          THEN conjunct1, rule_format, OF h3])
  have h4: "baseAsset (instrumentOf ''ETHUSDT'' (Some ''ETH'') (Some ''BTC'')) = Some ''ETH''"
    by (simp add: instrumentOf_def)
  have c4: "instrumentBaseValue (instrumentOf ''ETHUSDT'' (Some ''ETH'') (Some ''BTC'')) = ''ETH''"
    by (rule T [THEN conjunct2, THEN conjunct2, THEN conjunct2,
          THEN conjunct1, rule_format, OF h4])
  from h1 c1 h2 c2 h3 c3 h4 c4 show ?thesis by blast
qed

subsection \<open>The pager\<close>

lemma ceil_int_120: "- (- (a::int) div 120) = (a + 119) div 120"
proof -
  define q where "q = (a + 119) div 120"
  define r where "r = (a + 119) mod 120"
  have d: "a + 119 = 120 * q + r" by (simp add: q_def r_def)
  have r: "0 \<le> r" "r < 120" by (simp_all add: r_def)
  from d have "- a = 120 * (- q) + (119 - r)" by linarith
  moreover from r have "0 \<le> 119 - r" "119 - r < 120" by linarith+
  ultimately have "- a div 120 = - q" by (rule int_div_pos_eq)
  then show ?thesis by (simp add: q_def)
qed

lemma Math_ceil_div_page: "Math_ceil_div n INSTRUMENTS_PAGE_SIZE = (n + 119) div 120"
proof -
  have "\<lceil>real n / real (120::nat)\<rceil> = \<lceil>real_of_int (int n) / real_of_int 120\<rceil>" by simp
  also have "\<dots> = - (- int n div 120)" by (rule ceiling_divide_eq_div)
  also have "\<dots> = (int n + 119) div 120" by (rule ceil_int_120)
  also have "\<dots> = int ((n + 119) div 120)" by (simp add: zdiv_int)
  finally have "nat \<lceil>real n / real (120::nat)\<rceil> = (n + 119) div 120" by simp
  then show ?thesis unfolding Math_ceil_div_def INSTRUMENTS_PAGE_SIZE_def .
qed

lemma totalInstrumentPages_div: "totalInstrumentPages filtered = (length filtered + 119) div 120"
  by (simp add: totalInstrumentPages_def totalInstrumentCount_def Math_ceil_div_page)

lemma page_count_bounds:
  fixes n :: nat
  defines "tp \<equiv> (n + 119) div 120"
  shows "n \<le> tp * 120" and "0 < n \<Longrightarrow> (tp - 1) * 120 < n" and "0 < n \<Longrightarrow> 1 \<le> tp"
    and "n = 0 \<Longrightarrow> tp = 0"
proof -
  define r where "r = (n + 119) mod 120"
  have d: "n + 119 = tp * 120 + r" by (simp add: tp_def r_def)
  have r: "r < 120" by (simp add: r_def)
  from d r show "n \<le> tp * 120" by linarith
  show "n = 0 \<Longrightarrow> tp = 0" by (simp add: tp_def)
  {
    assume n: "0 < n"
    show "1 \<le> tp"
    proof (rule ccontr)
      assume "\<not> 1 \<le> tp"
      then have "tp = 0" by simp
      with d r n show False by simp
    qed
    then obtain k where k: "tp = Suc k" by (cases tp) auto
    with d r have "k * 120 < n" by simp
    with k show "(tp - 1) * 120 < n" by simp
  }
qed

lemma effective_page_start:
  assumes "filtered \<noteq> []"
  shows "effectiveInstrumentPage filtered p * 120 < length filtered"
    and "effectiveInstrumentPage filtered p < totalInstrumentPages filtered"
proof -
  let ?n = "length filtered"
  let ?tp = "(?n + 119) div 120"
  from assms have n: "0 < ?n" by simp
  from page_count_bounds(2) [OF n] have b: "(?tp - 1) * 120 < ?n" .
  from page_count_bounds(3) [OF n] have t: "1 \<le> ?tp" .
  have e: "effectiveInstrumentPage filtered p = min p (?tp - 1)"
    using t by (simp add: effectiveInstrumentPage_def totalInstrumentPages_div)
  have "min p (?tp - 1) * 120 \<le> (?tp - 1) * 120" by simp
  with b e show "effectiveInstrumentPage filtered p * 120 < length filtered" by simp
  have "min p (?tp - 1) \<le> ?tp - 1" by simp
  with t have "min p (?tp - 1) < ?tp" by linarith
  with e show "effectiveInstrumentPage filtered p < totalInstrumentPages filtered"
    by (simp only: totalInstrumentPages_div)
qed

lemma currentPageInstruments_take_drop:
  "currentPageInstruments filtered p
     = take 120 (drop (effectiveInstrumentPage filtered p * 120) filtered)"
  by (simp add: currentPageInstruments_def Array_slice_def pageStart_def INSTRUMENTS_PAGE_SIZE_def)

lemma currentPageInstruments_Nil_iff: "currentPageInstruments filtered p = [] \<longleftrightarrow> filtered = []"
proof (cases "filtered = []")
  case True
  then show ?thesis by (simp add: currentPageInstruments_take_drop)
next
  case False
  from effective_page_start(1) [OF False, of p] False show ?thesis
    by (simp add: currentPageInstruments_take_drop)
qed

text \<open>
  Claim C4. With the page size 120, for every filtered list and requested page: the
  number of pages is the ceiling of the length over 120 (0 for the empty list); the
  effective page is 0 without pages and else the smaller of the requested page and the
  last page index, so it is never out of range; the slice is the elements from
  \<open>effectivePage * 120\<close> up to, and not including, \<open>effectivePage * 120 + 120\<close>; the
  display bounds are 1-based and inclusive, \<open>effectivePage * 120 + 1\<close> and that plus
  the slice's length minus one, and both 0 for the empty list. 250 instruments make 3
  pages, and page 5 is then shown as page 2.
\<close>

theorem pager_derivation:
  "totalInstrumentPages filtered
     = (if filtered = [] then 0 else nat \<lceil>real (length filtered) / 120\<rceil>)
   \<and> totalInstrumentPages filtered = (length filtered + 119) div 120
   \<and> effectiveInstrumentPage filtered p
     = (if totalInstrumentPages filtered = 0 then 0
        else min p (totalInstrumentPages filtered - 1))
   \<and> currentPageInstruments filtered p
     = take 120 (drop (effectiveInstrumentPage filtered p * 120) filtered)
   \<and> length (currentPageInstruments filtered p)
     = min 120 (length filtered - effectiveInstrumentPage filtered p * 120)
   \<and> (\<forall>i. i < length (currentPageInstruments filtered p) \<longrightarrow>
         currentPageInstruments filtered p ! i
           = filtered ! (effectiveInstrumentPage filtered p * 120 + i))
   \<and> (filtered \<noteq> [] \<longrightarrow>
         effectiveInstrumentPage filtered p < totalInstrumentPages filtered
         \<and> currentPageInstruments filtered p \<noteq> []
         \<and> pageDisplayStart filtered p = effectiveInstrumentPage filtered p * 120 + 1
         \<and> int (pageDisplayEnd filtered p)
             = int (pageDisplayStart filtered p) + int (length (currentPageInstruments filtered p)) - 1
         \<and> pageDisplayEnd filtered p \<le> length filtered)
   \<and> (filtered = [] \<longrightarrow>
         totalInstrumentPages filtered = 0 \<and> effectiveInstrumentPage filtered p = 0
         \<and> currentPageInstruments filtered p = []
         \<and> pageDisplayStart filtered p = 0 \<and> pageDisplayEnd filtered p = 0)
   \<and> (length filtered = 250 \<longrightarrow>
         totalInstrumentPages filtered = 3 \<and> effectiveInstrumentPage filtered 5 = 2)"
proof -
  have a1: "totalInstrumentPages filtered
     = (if filtered = [] then 0 else nat \<lceil>real (length filtered) / 120\<rceil>)"
    by (simp add: totalInstrumentPages_def totalInstrumentCount_def Math_ceil_div_def
        INSTRUMENTS_PAGE_SIZE_def)
  have a2: "totalInstrumentPages filtered = (length filtered + 119) div 120"
    by (rule totalInstrumentPages_div)
  have a3: "effectiveInstrumentPage filtered p
     = (if totalInstrumentPages filtered = 0 then 0
        else min p (totalInstrumentPages filtered - 1))"
    by (simp add: effectiveInstrumentPage_def)
  have a4: "currentPageInstruments filtered p
     = take 120 (drop (effectiveInstrumentPage filtered p * 120) filtered)"
    by (rule currentPageInstruments_take_drop)
  have a5: "length (currentPageInstruments filtered p)
     = min 120 (length filtered - effectiveInstrumentPage filtered p * 120)"
    by (simp add: a4 min.commute)
  have a6: "\<forall>i. i < length (currentPageInstruments filtered p) \<longrightarrow>
         currentPageInstruments filtered p ! i
           = filtered ! (effectiveInstrumentPage filtered p * 120 + i)"
  proof (intro allI impI)
    fix i
    assume "i < length (currentPageInstruments filtered p)"
    with a5 have i: "i < 120" "i < length filtered - effectiveInstrumentPage filtered p * 120"
      by simp_all
    then have "effectiveInstrumentPage filtered p * 120 \<le> length filtered" by linarith
    with i show "currentPageInstruments filtered p ! i
        = filtered ! (effectiveInstrumentPage filtered p * 120 + i)"
      by (simp add: a4)
  qed
  have a7: "filtered \<noteq> [] \<longrightarrow>
         effectiveInstrumentPage filtered p < totalInstrumentPages filtered
         \<and> currentPageInstruments filtered p \<noteq> []
         \<and> pageDisplayStart filtered p = effectiveInstrumentPage filtered p * 120 + 1
         \<and> int (pageDisplayEnd filtered p)
             = int (pageDisplayStart filtered p) + int (length (currentPageInstruments filtered p)) - 1
         \<and> pageDisplayEnd filtered p \<le> length filtered"
  proof
    assume ne: "filtered \<noteq> []"
    from effective_page_start [OF ne, of p]
    have s: "effectiveInstrumentPage filtered p * 120 < length filtered"
      and t: "effectiveInstrumentPage filtered p < totalInstrumentPages filtered" by auto
    have ds: "pageDisplayStart filtered p = effectiveInstrumentPage filtered p * 120 + 1"
      using ne by (simp add: pageDisplayStart_def totalInstrumentCount_def pageStart_def
          INSTRUMENTS_PAGE_SIZE_def)
    have de: "pageDisplayEnd filtered p
        = effectiveInstrumentPage filtered p * 120 + length (currentPageInstruments filtered p)"
      using ne by (simp add: pageDisplayEnd_def totalInstrumentCount_def pageStart_def
          INSTRUMENTS_PAGE_SIZE_def)
    from de ds have e1: "int (pageDisplayEnd filtered p)
        = int (pageDisplayStart filtered p) + int (length (currentPageInstruments filtered p)) - 1"
      by simp
    from de a5 s have e2: "pageDisplayEnd filtered p \<le> length filtered" by simp
    from ne have n: "currentPageInstruments filtered p \<noteq> []"
      by (simp add: currentPageInstruments_Nil_iff)
    from t n ds e1 e2 show "effectiveInstrumentPage filtered p < totalInstrumentPages filtered
         \<and> currentPageInstruments filtered p \<noteq> []
         \<and> pageDisplayStart filtered p = effectiveInstrumentPage filtered p * 120 + 1
         \<and> int (pageDisplayEnd filtered p)
             = int (pageDisplayStart filtered p) + int (length (currentPageInstruments filtered p)) - 1
         \<and> pageDisplayEnd filtered p \<le> length filtered"
      by blast
  qed
  have a8: "filtered = [] \<longrightarrow>
         totalInstrumentPages filtered = 0 \<and> effectiveInstrumentPage filtered p = 0
         \<and> currentPageInstruments filtered p = []
         \<and> pageDisplayStart filtered p = 0 \<and> pageDisplayEnd filtered p = 0"
    by (simp add: totalInstrumentPages_def totalInstrumentCount_def effectiveInstrumentPage_def
        currentPageInstruments_take_drop pageDisplayStart_def pageDisplayEnd_def)
  have a9: "length filtered = 250 \<longrightarrow>
         totalInstrumentPages filtered = 3 \<and> effectiveInstrumentPage filtered 5 = 2"
    by (simp add: effectiveInstrumentPage_def totalInstrumentPages_div)
  from a1 a2 a3 a4 a5 a6 a7 a8 a9 show ?thesis by blast
qed

theorem pager_derivation_witness:
  "length manyInstruments = 250
   \<and> totalInstrumentPages manyInstruments = 3
   \<and> effectiveInstrumentPage manyInstruments 5 = 2
   \<and> manyInstruments \<noteq> []
   \<and> pageDisplayStart manyInstruments 5 = 241
   \<and> pageDisplayEnd manyInstruments 5 = 250
   \<and> length (currentPageInstruments manyInstruments 5) = 10
   \<and> totalInstrumentPages [] = 0 \<and> effectiveInstrumentPage [] 0 = 0
   \<and> pageDisplayStart [] 0 = 0 \<and> pageDisplayEnd [] 0 = 0"
proof -
  note T = pager_derivation [of manyInstruments 5]
  have l: "length manyInstruments = 250" by (simp add: manyInstruments_def)
  then have ne: "manyInstruments \<noteq> []" by auto
  from T l have p: "totalInstrumentPages manyInstruments = 3"
    and e: "effectiveInstrumentPage manyInstruments 5 = 2"
    by blast+
  from T have "length (currentPageInstruments manyInstruments 5)
     = min 120 (length manyInstruments - effectiveInstrumentPage manyInstruments 5 * 120)"
    by blast
  with l e have s: "length (currentPageInstruments manyInstruments 5) = 10" by simp
  from T ne have "pageDisplayStart manyInstruments 5 = effectiveInstrumentPage manyInstruments 5 * 120 + 1"
    and de: "int (pageDisplayEnd manyInstruments 5)
       = int (pageDisplayStart manyInstruments 5)
         + int (length (currentPageInstruments manyInstruments 5)) - 1"
    by blast+
  with e have ds: "pageDisplayStart manyInstruments 5 = 241" by simp
  from de ds s have dE: "pageDisplayEnd manyInstruments 5 = 250" by simp
  from pager_derivation [of "[]" 0]
  have z: "totalInstrumentPages [] = 0 \<and> effectiveInstrumentPage [] 0 = 0
      \<and> pageDisplayStart [] 0 = 0 \<and> pageDisplayEnd [] 0 = 0"
    by blast
  from l p e ne ds dE s z show ?thesis by blast
qed

subsection \<open>The selection synchroniser\<close>

lemma selection_slice:
  assumes "filtered \<noteq> []"
  shows "Array_slice filtered
           (min page (max 0 (Math_ceil_div (length filtered) INSTRUMENTS_PAGE_SIZE - 1))
              * INSTRUMENTS_PAGE_SIZE)
           (min page (max 0 (Math_ceil_div (length filtered) INSTRUMENTS_PAGE_SIZE - 1))
              * INSTRUMENTS_PAGE_SIZE + INSTRUMENTS_PAGE_SIZE)
         = currentPageInstruments filtered page"
proof -
  from assms have n: "0 < length filtered" by simp
  from page_count_bounds(3) [OF n] have "totalInstrumentPages filtered \<noteq> 0"
    by (simp add: totalInstrumentPages_div)
  moreover from assms have "totalInstrumentPages filtered
      = Math_ceil_div (length filtered) INSTRUMENTS_PAGE_SIZE"
    by (simp add: totalInstrumentPages_def totalInstrumentCount_def)
  ultimately have "min page (max 0 (Math_ceil_div (length filtered) INSTRUMENTS_PAGE_SIZE - 1))
      = effectiveInstrumentPage filtered page"
    by (simp add: effectiveInstrumentPage_def)
  then show ?thesis by (simp only: currentPageInstruments_def pageStart_def)
qed

lemma selectionEffect_nonempty:
  assumes "filtered \<noteq> []"
  shows "selectionEffect filtered page selected =
     (case selected of
        None \<Rightarrow> [SetSelectedInstrument (Some (hd (currentPageInstruments filtered page)))]
      | Some sel \<Rightarrow>
          (case find (\<lambda>instrument. symbol instrument = symbol sel)
                  (currentPageInstruments filtered page) of
             Some match \<Rightarrow> (if match \<noteq> sel then [SetSelectedInstrument (Some match)] else [])
           | None \<Rightarrow> [SetSelectedInstrument (Some (hd (currentPageInstruments filtered page)))]))"
proof -
  from assms have ne: "currentPageInstruments filtered page \<noteq> []"
    by (simp add: currentPageInstruments_Nil_iff)
  from assms have l: "length filtered \<noteq> 0" by simp
  show ?thesis
    unfolding selectionEffect_def Let_def selection_slice [OF assms]
    using ne l by (simp only: if_False length_0_conv)
qed

lemma resync_eq:
  "resync filtered page selected =
     (if filtered = [] then None
      else case selected of
             None \<Rightarrow> Some (hd (currentPageInstruments filtered page))
           | Some sel \<Rightarrow>
               (case find (\<lambda>instrument. symbol instrument = symbol sel)
                       (currentPageInstruments filtered page) of
                  Some match \<Rightarrow> Some match
                | None \<Rightarrow> Some (hd (currentPageInstruments filtered page))))"
proof (cases "filtered = []")
  case True
  then show ?thesis by (simp add: resync_def selectionEffect_def)
next
  case False
  show ?thesis
    unfolding resync_def selectionEffect_nonempty [OF False]
    using False by (auto split: option.splits)
qed

text \<open>
  Claim C5. The selection synchroniser returns: none when the page slice is empty;
  the first element of the slice when nothing was selected; the first element of the
  slice with the previous selection's symbol when there is one, which is the element
  of the slice and not the previously selected object; and the first element of the
  slice when no element has that symbol.
\<close>

theorem resync_cases:
  "(currentPageInstruments filtered page = [] \<longrightarrow> resync filtered page prev = None)
   \<and> (currentPageInstruments filtered page \<noteq> [] \<longrightarrow>
        resync filtered page None = Some (currentPageInstruments filtered page ! 0))
   \<and> (\<forall>(p::Instrument) m. find (\<lambda>i. symbol i = symbol p) (currentPageInstruments filtered page) = Some m \<longrightarrow>
        resync filtered page (Some p) = Some m
        \<and> m \<in> set (currentPageInstruments filtered page) \<and> symbol m = symbol p)
   \<and> (\<forall>(p::Instrument). (\<exists>i\<in>set (currentPageInstruments filtered page). symbol i = symbol p) \<longrightarrow>
        (\<exists>m. find (\<lambda>i. symbol i = symbol p) (currentPageInstruments filtered page) = Some m))
   \<and> (\<forall>(p::Instrument). currentPageInstruments filtered page \<noteq> []
          \<and> (\<forall>i\<in>set (currentPageInstruments filtered page). symbol i \<noteq> symbol p) \<longrightarrow>
        resync filtered page (Some p) = Some (currentPageInstruments filtered page ! 0))"
proof -
  let ?slice = "currentPageInstruments filtered page"
  have e: "?slice = [] \<longleftrightarrow> filtered = []" by (rule currentPageInstruments_Nil_iff)
  have a1: "?slice = [] \<longrightarrow> resync filtered page prev = None"
    by (simp add: e resync_eq)
  have a2: "?slice \<noteq> [] \<longrightarrow> resync filtered page None = Some (?slice ! 0)"
    by (simp add: e resync_eq hd_conv_nth)
  have a3: "\<forall>(p::Instrument) m. find (\<lambda>i. symbol i = symbol p) ?slice = Some m \<longrightarrow>
        resync filtered page (Some p) = Some m \<and> m \<in> set ?slice \<and> symbol m = symbol p"
  proof (intro allI impI)
    fix p :: Instrument and m
    assume f: "find (\<lambda>i. symbol i = symbol p) ?slice = Some m"
    then have m: "m \<in> set ?slice" and s: "symbol m = symbol p"
      by (auto simp: find_Some_iff)
    from m have "?slice \<noteq> []" by auto
    with e have "filtered \<noteq> []" by simp
    with f have "resync filtered page (Some p) = Some m" by (simp add: resync_eq)
    with m s show "resync filtered page (Some p) = Some m \<and> m \<in> set ?slice \<and> symbol m = symbol p"
      by simp
  qed
  have a4: "\<forall>(p::Instrument). (\<exists>i\<in>set ?slice. symbol i = symbol p) \<longrightarrow>
        (\<exists>m. find (\<lambda>i. symbol i = symbol p) ?slice = Some m)"
  proof (intro allI impI)
    fix p :: Instrument
    assume "\<exists>i\<in>set ?slice. symbol i = symbol p"
    then have "find (\<lambda>i. symbol i = symbol p) ?slice \<noteq> None"
      by (auto simp: find_None_iff)
    then show "\<exists>m. find (\<lambda>i. symbol i = symbol p) ?slice = Some m" by auto
  qed
  have a5: "\<forall>(p::Instrument). ?slice \<noteq> [] \<and> (\<forall>i\<in>set ?slice. symbol i \<noteq> symbol p) \<longrightarrow>
        resync filtered page (Some p) = Some (?slice ! 0)"
  proof (intro allI impI)
    fix p :: Instrument
    assume a: "?slice \<noteq> [] \<and> (\<forall>i\<in>set ?slice. symbol i \<noteq> symbol p)"
    then have "find (\<lambda>i. symbol i = symbol p) ?slice = None" by (simp add: find_None_iff)
    moreover from a e have "filtered \<noteq> []" by simp
    ultimately show "resync filtered page (Some p) = Some (?slice ! 0)"
      using a by (simp add: resync_eq hd_conv_nth)
  qed
  from a1 a2 a3 a4 a5 show ?thesis by blast
qed

theorem resync_cases_witness:
  "currentPageInstruments [] 0 = [] \<and> resync [] 0 (Some (instrumentOf ''XRPUSDT'' None None)) = None
   \<and> currentPageInstruments (instruments sampleDetail) 0 \<noteq> []
   \<and> resync (instruments sampleDetail) 0 None = Some (instrumentOf ''BTCUSDT'' None None)
   \<and> find (\<lambda>i. symbol i = symbol (instrumentOf ''ETHUSDT'' None None))
        (currentPageInstruments (instruments sampleDetail) 0)
       = Some (instrumentOf ''ETHUSDT'' (Some ''ETH'') (Some ''BTC''))
   \<and> resync (instruments sampleDetail) 0 (Some (instrumentOf ''ETHUSDT'' None None))
       = Some (instrumentOf ''ETHUSDT'' (Some ''ETH'') (Some ''BTC''))
   \<and> find (\<lambda>i. symbol i = symbol (instrumentOf ''XRPUSDT'' None None))
        (currentPageInstruments (instruments sampleDetail) 0)
       = None
   \<and> resync (instruments sampleDetail) 0 (Some (instrumentOf ''XRPUSDT'' None None))
       = Some (instrumentOf ''BTCUSDT'' None None)"
proof -
  have s: "currentPageInstruments (instruments sampleDetail) 0 = instruments sampleDetail"
    by code_simp
  have z: "instruments sampleDetail ! 0 = instrumentOf ''BTCUSDT'' None None"
    by (simp add: sampleDetail_def)
  have h0: "currentPageInstruments [] 0 = []" by code_simp
  have c0: "resync [] 0 (Some (instrumentOf ''XRPUSDT'' None None)) = None"
    by (rule resync_cases [THEN conjunct1, THEN mp, OF h0])
  have h1: "currentPageInstruments (instruments sampleDetail) 0 \<noteq> []"
    unfolding s by (simp add: sampleDetail_def)
  have c1: "resync (instruments sampleDetail) 0 None = Some (instrumentOf ''BTCUSDT'' None None)"
    using resync_cases [of "instruments sampleDetail" 0, THEN conjunct2, THEN conjunct1, THEN mp, OF h1]
    by (simp only: s z)
  have h2: "find (\<lambda>i. symbol i = symbol (instrumentOf ''ETHUSDT'' None None))
        (currentPageInstruments (instruments sampleDetail) 0)
       = Some (instrumentOf ''ETHUSDT'' (Some ''ETH'') (Some ''BTC''))"
    unfolding s by code_simp
  have c2: "resync (instruments sampleDetail) 0 (Some (instrumentOf ''ETHUSDT'' None None))
       = Some (instrumentOf ''ETHUSDT'' (Some ''ETH'') (Some ''BTC''))"
    by (rule resync_cases [THEN conjunct2, THEN conjunct2, THEN conjunct1, rule_format,
          OF h2, THEN conjunct1])
  have h3: "\<forall>i\<in>set (currentPageInstruments (instruments sampleDetail) 0).
         symbol i \<noteq> symbol (instrumentOf ''XRPUSDT'' None None)"
    unfolding s by code_simp
  from h1 h3 have h3': "currentPageInstruments (instruments sampleDetail) 0 \<noteq> []
      \<and> (\<forall>i\<in>set (currentPageInstruments (instruments sampleDetail) 0).
         symbol i \<noteq> symbol (instrumentOf ''XRPUSDT'' None None))"
    by (rule conjI)
  have c3: "resync (instruments sampleDetail) 0 (Some (instrumentOf ''XRPUSDT'' None None))
       = Some (instrumentOf ''BTCUSDT'' None None)"
    using resync_cases [of "instruments sampleDetail" 0, THEN conjunct2, THEN conjunct2,
        THEN conjunct2, THEN conjunct2, THEN spec, THEN mp, OF h3']
    by (simp only: s z)
  have n3: "find (\<lambda>i. symbol i = symbol (instrumentOf ''XRPUSDT'' None None))
        (currentPageInstruments (instruments sampleDetail) 0) = None"
    unfolding s by code_simp
  from h0 c0 h1 c1 h2 c2 n3 c3 show ?thesis by blast
qed

text \<open>
  Claim C3. After every run of the selection effect the selection is none exactly
  when the current page slice is empty, and otherwise it is an element of the current
  page slice (so its symbol is the symbol of an element of the slice); it is never an
  instrument that the visible page does not hold.
\<close>

theorem resync_selection_in_slice:
  "(resync filtered page selected = None \<longleftrightarrow> currentPageInstruments filtered page = [])
   \<and> (\<forall>x. resync filtered page selected = Some x \<longrightarrow>
         x \<in> set (currentPageInstruments filtered page)
         \<and> (\<exists>y\<in>set (currentPageInstruments filtered page). symbol y = symbol x))"
proof (cases "filtered = []")
  case True
  then show ?thesis by (simp add: resync_eq currentPageInstruments_Nil_iff)
next
  case False
  let ?slice = "currentPageInstruments filtered page"
  from False have ne: "?slice \<noteq> []" by (simp add: currentPageInstruments_Nil_iff)
  then have hd: "hd ?slice \<in> set ?slice" by simp
  have "\<exists>x. resync filtered page selected = Some x \<and> x \<in> set ?slice"
  proof (cases selected)
    case None
    with False hd show ?thesis by (simp add: resync_eq)
  next
    case (Some sel)
    show ?thesis
    proof (cases "find (\<lambda>i. symbol i = symbol sel) ?slice")
      case None
      with Some False hd show ?thesis by (simp add: resync_eq)
    next
      case (Some m)
      then have "m \<in> set ?slice" by (auto simp: find_Some_iff)
      with Some \<open>selected = Some sel\<close> False show ?thesis by (simp add: resync_eq)
    qed
  qed
  with ne show ?thesis by auto
qed

theorem resync_selection_in_slice_witness:
  "resync (instruments sampleDetail) 7 (Some (instrumentOf ''XRPUSDT'' None None))
     = Some (instrumentOf ''BTCUSDT'' None None)
   \<and> instrumentOf ''BTCUSDT'' None None \<in> set (currentPageInstruments (instruments sampleDetail) 7)
   \<and> resync [] 7 (Some (instrumentOf ''XRPUSDT'' None None)) = None
   \<and> currentPageInstruments [] 7 = []"
proof -
  have r: "resync (instruments sampleDetail) 7 (Some (instrumentOf ''XRPUSDT'' None None))
     = Some (instrumentOf ''BTCUSDT'' None None)"
    by code_simp
  have m: "instrumentOf ''BTCUSDT'' None None
      \<in> set (currentPageInstruments (instruments sampleDetail) 7)"
    by (rule resync_selection_in_slice [THEN conjunct2, rule_format, OF r, THEN conjunct1])
  have e: "currentPageInstruments [] 7 = []" by code_simp
  have n: "resync [] 7 (Some (instrumentOf ''XRPUSDT'' None None)) = None"
    using resync_selection_in_slice [of "[]" 7, THEN conjunct1] e by (simp only:)
  from r m n e show ?thesis by blast
qed

subsection \<open>The page after a change of the query\<close>

lemma selectionEffect_keeps_page:
  "instrumentPage (foldl applyUpdate st (selectionEffect filtered page selected)) = instrumentPage st"
  by (simp add: selectionEffect_def Let_def split: option.splits)

lemma pageClampEffect_cases:
  "pageClampEffect filtered page =
     (if filtered = [] then (if page \<noteq> 0 then [SetInstrumentPage 0] else [])
      else if totalInstrumentPages filtered - 1 < page
           then [SetInstrumentPage (totalInstrumentPages filtered - 1)]
           else [])"
  by (simp add: pageClampEffect_def Let_def totalInstrumentPages_def totalInstrumentCount_def)

text \<open>
  After the query has changed, the stored page is 0 unless the clamp effect runs in
  the same commit and finds the old page beyond the new last page: then its setter
  call comes after the reset's and the stored page is the new last page index.
\<close>

lemma page_after_query_change:
  assumes "q \<noteq> instrumentQuery prev"
  shows "instrumentPage (setInstrumentQuery prev q) =
     (if length (filteredInstruments (detail prev) q)
           \<noteq> length (filteredInstruments (detail prev) (instrumentQuery prev))
         \<and> filteredInstruments (detail prev) q \<noteq> []
         \<and> totalInstrumentPages (filteredInstruments (detail prev) q) - 1 < instrumentPage prev
      then totalInstrumentPages (filteredInstruments (detail prev) q) - 1
      else 0)"
proof -
  let ?f = "filteredInstruments (detail prev) q"
  let ?c = "if length ?f \<noteq> length (filteredInstruments (detail prev) (instrumentQuery prev))
            then pageClampEffect ?f (instrumentPage prev) else []"
  have "instrumentPage (setInstrumentQuery prev q)
      = instrumentPage (foldl applyUpdate (prev\<lparr>instrumentQuery := q\<rparr>) (pageResetEffect @ ?c))"
    using assms
    by (simp add: setInstrumentQuery_def queryChangeEffects_def Let_def selectionEffect_keeps_page)
  also have "\<dots> = (if length ?f \<noteq> length (filteredInstruments (detail prev) (instrumentQuery prev))
         \<and> ?f \<noteq> [] \<and> totalInstrumentPages ?f - 1 < instrumentPage prev
      then totalInstrumentPages ?f - 1 else 0)"
    by (simp add: pageResetEffect_def pageClampEffect_cases)
  finally show ?thesis .
qed

lemma filteredInstruments_filter:
  "trim q \<noteq> [] \<Longrightarrow>
   filteredInstruments (Some d) q
     = filter (instrumentMatches (toLowerCase (trim q))) (instruments d)"
proof -
  have sym: "\<And>i. (case symbol i of Some s \<Rightarrow> toLowerCase s | None \<Rightarrow> [])
      = toLowerCase (case symbol i of Some s \<Rightarrow> s | None \<Rightarrow> [])"
    by (simp add: toLowerCase_def split: option.splits)
  assume "trim q \<noteq> []"
  then show ?thesis
    by (simp add: filteredInstruments_def toLowerCase_Nil_iff Let_def
        instrumentMatches_def [abs_def] String_includes_sublist sym)
qed

text \<open>
  Claim C9 says that after a change of the query the stored page is 0 before the next
  pagination. In the source the page-reset effect and the page-clamp effect run in
  the same commit, the reset first. With 241 instruments, page 2 shown and the query
  changed from empty to \<^verbatim>\<open>a\<close>, which 121 instruments match, the clamp sees the old
  page 2 beyond the new last page 1 and sets 1 after the reset has set 0: the stored
  page is 1, and the next pagination shows page 1 of the new result.
\<close>

theorem page_reset_overridden_by_clamp:
  "instrumentQuery lastPageState \<noteq> ''a''
   \<and> length (filteredInstruments (detail lastPageState) (instrumentQuery lastPageState)) = 241
   \<and> length (filteredInstruments (detail lastPageState) ''a'') = 121
   \<and> instrumentPage (setInstrumentQuery lastPageState ''a'') = 1
   \<and> effectiveInstrumentPage (filteredInstruments (detail lastPageState) ''a'')
        (instrumentPage (setInstrumentQuery lastPageState ''a'')) = 1"
proof -
  have q: "instrumentQuery lastPageState \<noteq> ''a''" by (simp add: lastPageState_def)
  have d: "detail lastPageState = Some bigDetail" "instrumentPage lastPageState = 2"
      "instrumentQuery lastPageState = []"
    by (simp_all add: lastPageState_def)
  have "filteredInstruments (Some bigDetail) [] = instruments bigDetail"
    by (simp add: filteredInstruments_def trim_def trimStart_def trimEnd_def toLowerCase_def)
  then have l0: "length (filteredInstruments (Some bigDetail) []) = 241"
    by (simp add: bigDetail_def)
  have t: "trim ''a'' \<noteq> []" and lc: "toLowerCase (trim ''a'') = ''a''" by code_simp+
  have m1: "instrumentMatches ''a'' (instrumentOf ''AB'' None None)"
    and m2: "\<not> instrumentMatches ''a'' (instrumentOf ''CD'' None None)"
    by code_simp+
  have f: "filteredInstruments (Some bigDetail) ''a'' = replicate 121 (instrumentOf ''AB'' None None)"
    unfolding filteredInstruments_filter [OF t] lc
    by (simp add: bigDetail_def m1 m2)
  then have l1: "length (filteredInstruments (Some bigDetail) ''a'') = 121" by simp
  then have ne: "filteredInstruments (Some bigDetail) ''a'' \<noteq> []" by auto
  from l1 have tp: "totalInstrumentPages (filteredInstruments (Some bigDetail) ''a'') = 2"
    by (simp add: totalInstrumentPages_div)
  from page_after_query_change [OF q [symmetric]] l0 l1 ne tp
  have p: "instrumentPage (setInstrumentQuery lastPageState ''a'') = 1"
    by (simp add: d)
  from tp have e: "effectiveInstrumentPage (filteredInstruments (Some bigDetail) ''a'') 1 = 1"
    by (simp add: effectiveInstrumentPage_def)
  from q l0 l1 p e show ?thesis by (simp add: d)
qed

end
